theory Spec2Isabelle
  imports Main "HOL-Library.Word" "HOL-Library.Log_Nat"
begin

unbundle bit_operations_syntax

section \<open>DART return codes and global pointers\<close>

text \<open>
  The return codes of the DART interface that the sources under study produce
  (\<^verbatim>\<open>dart_ret_t\<close>).
\<close>

datatype dart_ret_t = DART_OK | DART_ERR_INVAL | DART_ERR_NOTFOUND | DART_ERR_NOTINIT | DART_ERR_OTHER

text \<open>
  A global pointer \<^verbatim>\<open>dart_gptr_t\<close>: owning unit, segment id, flags and the
  offset member of the \<^verbatim>\<open>addr_or_offs\<close> union.
\<close>

record dart_gptr_t =
  unitid :: "32 word"
  segid :: "16 word"
  flags :: "16 word"
  offset :: "64 word"

section \<open>PersistentMemoryAllocator: equality\<close>

text \<open>
  The data members of \<^verbatim>\<open>PersistentMemoryAllocator<ElementType>\<close>. A bucket of
  \<^verbatim>\<open>_allocated\<close> is a local pointer together with its byte count and global pointer.
\<close>

record PersistentMemoryAllocator =
  pma_team :: "64 word"
  pma_team_id :: "32 word"
  pma_nunits :: "64 word"
  pma_allocated :: "(64 word \<times> 64 word \<times> dart_gptr_t) list"
  pma_poolId :: string
  pma_pmem_pool :: "64 word"

text \<open>
  The member \<^verbatim>\<open>bool operator==(const self_t & rhs) const\<close> (lines 239 to 242).
\<close>

definition operator_eq_member :: "PersistentMemoryAllocator \<Rightarrow> PersistentMemoryAllocator \<Rightarrow> bool" where
  "operator_eq_member lhs rhs = (pma_team_id lhs = pma_team_id rhs)"

text \<open>
  The namespace-scope template \<^verbatim>\<open>operator==(PersistentMemoryAllocator<T>,
  PersistentMemoryAllocator<U>)\<close> (lines 553 to 562); the two element sizes
  \<^verbatim>\<open>sizeof(T)\<close> and \<^verbatim>\<open>sizeof(U)\<close> are arguments.
\<close>

definition operator_eq_template ::
  "nat \<Rightarrow> nat \<Rightarrow> PersistentMemoryAllocator \<Rightarrow> PersistentMemoryAllocator \<Rightarrow> bool" where
  "operator_eq_template sizeof_T sizeof_U lhs rhs =
     (sizeof_T = sizeof_U \<and>
      pma_team_id lhs = pma_team_id rhs \<and>
      pma_poolId lhs = pma_poolId rhs \<and>
      pma_nunits lhs = pma_nunits rhs)"

text \<open>
  For two operands of the same class \<^verbatim>\<open>PersistentMemoryAllocator<T>\<close> both
  functions are viable with identical conversions, and C++ overload resolution
  prefers the non-template member to the template specialisation: the expression
  \<^verbatim>\<open>lhs == rhs\<close> calls the member.
\<close>

definition operator_eq_same_type :: "PersistentMemoryAllocator \<Rightarrow> PersistentMemoryAllocator \<Rightarrow> bool" where
  "operator_eq_same_type lhs rhs = operator_eq_member lhs rhs"

text \<open>The three attributes the specification compares.\<close>

definition same_team_pool_size :: "PersistentMemoryAllocator \<Rightarrow> PersistentMemoryAllocator \<Rightarrow> bool" where
  "same_team_pool_size lhs rhs =
     (pma_team_id lhs = pma_team_id rhs \<and> pma_poolId lhs = pma_poolId rhs \<and>
      pma_nunits lhs = pma_nunits rhs)"

section \<open>Global pointer translation (dart\_globmem.c)\<close>

text \<open>
  What \<^verbatim>\<open>dart_gptr_getaddr\<close> reads from its surroundings: the caller's unit id
  (\<^verbatim>\<open>dart_myid\<close>), the two lookups of the translation table (\<^verbatim>\<open>-1\<close> is
  \<open>None\<close>), the base address stored in a window (\<^verbatim>\<open>MPI_Win_get_attr\<close> with
  \<^verbatim>\<open>MPI_WIN_BASE\<close>), the base \<^verbatim>\<open>dart_mempool_localalloc\<close> of the local pool,
  and whether the file is compiled with \<^verbatim>\<open>SHAREDMEM_ENABLE\<close>. Addresses are 64-bit
  words, \<^verbatim>\<open>NULL\<close> is address 0.
\<close>

type_synonym addr_t = "64 word"
type_synonym MPI_Win = nat

definition NULL :: addr_t where
  "NULL = 0"

record globmem_env =
  SHAREDMEM_ENABLE :: bool
  env_myid :: "32 word"
  transtable_get_win :: "16 word \<Rightarrow> MPI_Win option"
  win_base :: "MPI_Win \<Rightarrow> addr_t"
  transtable_get_selfbaseptr :: "16 word \<Rightarrow> addr_t option"
  dart_mempool_localalloc :: addr_t

text \<open>
  \<^verbatim>\<open>dart_gptr_getaddr (gptr, addr)\<close>: the result is the return code and the
  content of \<^verbatim>\<open>*addr\<close> after the call; the third argument is its content before.
\<close>

definition dart_gptr_getaddr :: "globmem_env \<Rightarrow> dart_gptr_t \<Rightarrow> addr_t \<Rightarrow> dart_ret_t \<times> addr_t" where
  "dart_gptr_getaddr env gptr addr =
     (let seg_id = segid gptr;
          offs = offset gptr;
          myid = env_myid env
      in if myid = unitid gptr then
           if seg_id \<noteq> 0 then
             if SHAREDMEM_ENABLE env then
               (case transtable_get_win env seg_id of
                  None \<Rightarrow> (DART_ERR_INVAL, addr)
                | Some win \<Rightarrow> (DART_OK, offs + win_base env win))
             else
               (case transtable_get_selfbaseptr env seg_id of
                  None \<Rightarrow> (DART_ERR_INVAL, addr)
                | Some base \<Rightarrow> (DART_OK, offs + base))
           else
             if myid = unitid gptr then (DART_OK, offs + dart_mempool_localalloc env)
             else (DART_OK, addr)
         else (DART_OK, NULL))"

text \<open>A segment id resolves when the lookup that the build uses succeeds.\<close>

definition seg_resolves :: "globmem_env \<Rightarrow> 16 word \<Rightarrow> bool" where
  "seg_resolves env seg =
     (if SHAREDMEM_ENABLE env then transtable_get_win env seg \<noteq> None
      else transtable_get_selfbaseptr env seg \<noteq> None)"

text \<open>The base a local address is counted from: the local pool for segment 0,
  the segment's own base otherwise.\<close>

definition local_base :: "globmem_env \<Rightarrow> 16 word \<Rightarrow> addr_t" where
  "local_base env seg =
     (if seg = 0 then dart_mempool_localalloc env
      else if SHAREDMEM_ENABLE env then win_base env (the (transtable_get_win env seg))
      else the (transtable_get_selfbaseptr env seg))"

section \<open>Local allocation (dart\_globmem.c)\<close>

text \<open>
  Modelled from the spec: \<^verbatim>\<open>dart_buddy_alloc\<close> and the pool \<^verbatim>\<open>dart_localpool\<close>
  are declared in \<^verbatim>\<open>dart_mem.h\<close>, which is not among the sources. The
  specification (4.D, 8) describes a fixed-size arena managed by a buddy allocator
  with power-of-two classes that yields 64-bit offsets, where a request the arena
  cannot satisfy is refused and does not alter the free list. The pool is the
  free list of every class: \<open>free_list ! k\<close> holds the offsets of the free blocks
  of \<open>2 ^ k\<close> bytes.
\<close>

record dart_buddy =
  free_list :: "64 word list list"

text \<open>Modelled from the spec: the class of a request, the least \<open>k\<close> with
  \<open>nbytes \<le> 2 ^ k\<close>.\<close>

definition buddy_class :: "nat \<Rightarrow> nat" where
  "buddy_class nbytes = (if nbytes \<le> 1 then 0 else floorlog 2 (nbytes - 1))"

text \<open>Modelled from the spec: cutting the free block at \<open>off\<close> of class \<open>j\<close> down to
  class \<open>k\<close> puts the upper half of every cut on the free list of its class.\<close>

fun buddy_split :: "64 word list list \<Rightarrow> nat \<Rightarrow> nat \<Rightarrow> 64 word \<Rightarrow> 64 word list list" where
  "buddy_split fl 0 k off = fl"
| "buddy_split fl (Suc j) k off =
     (if k \<le> j then buddy_split (fl[j := (off + 2 ^ j) # fl ! j]) j k off else fl)"

text \<open>Modelled from the spec: the allocation proper. The smallest non-empty class
  that is large enough gives its first block; \<open>None\<close> when there is none.\<close>

definition buddy_take :: "dart_buddy \<Rightarrow> nat \<Rightarrow> (64 word \<times> dart_buddy) option" where
  "buddy_take pool nbytes =
     (let fl = free_list pool; k = buddy_class nbytes
      in case find (\<lambda>j. fl ! j \<noteq> []) [k ..< length fl] of
           None \<Rightarrow> None
         | Some j \<Rightarrow>
             (let off = hd (fl ! j)
              in Some (off, pool\<lparr>free_list := buddy_split (fl[j := tl (fl ! j)]) j k off\<rparr>)))"

text \<open>Modelled from the spec: the C interface of the allocator, which reports
  exhaustion as the offset \<^verbatim>\<open>-1\<close>; this is the value \<^verbatim>\<open>dart_memalloc\<close> tests.\<close>

definition dart_buddy_alloc :: "dart_buddy \<Rightarrow> 64 word \<Rightarrow> 64 word \<times> dart_buddy" where
  "dart_buddy_alloc pool nbytes =
     (case buddy_take pool (unat nbytes) of
        None \<Rightarrow> (- 1, pool)
      | Some (off, pool') \<Rightarrow> (off, pool'))"

text \<open>
  \<^verbatim>\<open>dart_memalloc (nbytes, gptr)\<close>. The arguments are the caller's unit id, the
  pool \<^verbatim>\<open>dart_localpool\<close>, the request and the content of \<^verbatim>\<open>*gptr\<close> before the
  call; the result is the return code, \<^verbatim>\<open>*gptr\<close> and the pool after it.
\<close>

definition dart_memalloc ::
  "32 word \<Rightarrow> dart_buddy \<Rightarrow> 64 word \<Rightarrow> dart_gptr_t \<Rightarrow> dart_ret_t \<times> dart_gptr_t \<times> dart_buddy" where
  "dart_memalloc myid dart_localpool nbytes gptr =
     (let unit_id = myid;
          gptr1 = gptr\<lparr>unitid := unit_id\<rparr>;
          gptr2 = gptr1\<lparr>segid := 0\<rparr>;
          gptr3 = gptr2\<lparr>flags := 0\<rparr>;
          (off, pool') = dart_buddy_alloc dart_localpool nbytes;
          gptr4 = gptr3\<lparr>offset := off\<rparr>
      in if offset gptr4 = - 1 then (DART_ERR_OTHER, gptr4, pool')
         else (DART_OK, gptr4, pool'))"

section \<open>Parallel sort: remote partitions (Merge.h)\<close>

text \<open>
  Units are \<^verbatim>\<open>dash::team_unit_t\<close>, a wrapper of the 32-bit signed \<^verbatim>\<open>dart_unit_t\<close>;
  sizes and counts are \<^verbatim>\<open>size_t\<close>, 64 bits wide. A unit that subscripts a vector
  is converted from \<^verbatim>\<open>int\<close> to \<^verbatim>\<open>size_t\<close>, which extends its sign.
\<close>

type_synonym team_unit_t = "32 word"
type_synonym size_t = "64 word"

definition unit_index :: "team_unit_t \<Rightarrow> nat" where
  "unit_index u = unat (scast u :: 64 word)"

text \<open>
  What can stop the sort helpers: a subscript outside its vector (undefined in
  C++, an error here), \<^verbatim>\<open>std::out_of_range\<close> thrown by \<^verbatim>\<open>map::at\<close>, a failed
  \<^verbatim>\<open>DASH_ASSERT_EQ\<close>, and the conversion of a non-finite \<^verbatim>\<open>double\<close> to
  \<^verbatim>\<open>size_t\<close>.
\<close>

datatype sort_error = IndexOutOfBounds | OutOfRange | AssertionFailed | UndefinedConversion

definition vector_at :: "'a list \<Rightarrow> team_unit_t \<Rightarrow> sort_error + 'a" where
  "vector_at v u =
     (if unit_index u < length v then Inr (v ! unit_index u) else Inl IndexOutOfBounds)"

text \<open>
  The \<^verbatim>\<open>std::transform\<close> over \<^verbatim>\<open>valid_splitters\<close>: every splitter gives the unit
  to its right, or the sentinel \<^verbatim>\<open>DART_UNDEFINED_UNIT_ID\<close>. The sentinel is a
  constant of \<^verbatim>\<open>dart_types.h\<close>, which is not among the sources, and is an argument
  here.
\<close>

fun transform_splitters ::
  "team_unit_t \<Rightarrow> team_unit_t \<Rightarrow> size_t list \<Rightarrow> size_t list \<Rightarrow> sort_error + team_unit_t list" where
  "transform_splitters undefined_unit whoami target_counts [] = Inr []"
| "transform_splitters undefined_unit whoami target_counts (splitter # rest) =
     (let right_unit = (ucast splitter :: 32 word) + 1
      in case vector_at target_counts right_unit of
           Inl e \<Rightarrow> Inl e
         | Inr c \<Rightarrow>
             (case transform_splitters undefined_unit whoami target_counts rest of
                Inl e \<Rightarrow> Inl e
              | Inr units \<Rightarrow>
                  Inr ((if c \<noteq> 0 \<and> whoami \<noteq> right_unit then right_unit else undefined_unit)
                       # units)))"

text \<open>\<^verbatim>\<open>psort__remote_partitions\<close>; the first argument is the sentinel.\<close>

definition psort__remote_partitions ::
  "team_unit_t \<Rightarrow> size_t list \<Rightarrow> size_t list \<Rightarrow> size_t \<Rightarrow> team_unit_t \<Rightarrow> team_unit_t
     \<Rightarrow> sort_error + team_unit_t list" where
  "psort__remote_partitions undefined_unit valid_splitters target_counts nunits unit_at_begin whoami =
     (case vector_at target_counts unit_at_begin of
        Inl e \<Rightarrow> Inl e
      | Inr c \<Rightarrow>
          (let remote_units = (if c \<noteq> 0 \<and> whoami \<noteq> unit_at_begin then [unit_at_begin] else [])
           in case transform_splitters undefined_unit whoami target_counts valid_splitters of
                Inl e \<Rightarrow> Inl e
              | Inr marked \<Rightarrow>
                  Inr (filter (\<lambda>unit. unit \<noteq> undefined_unit) (remote_units @ marked))))"

text \<open>
  The list of phase 3 of the specification, in its words: the unit at the
  beginning if it has a positive target count and is not the caller, then
  \<open>s + 1\<close> for every splitter \<open>s\<close>, in input order, under the same condition.
\<close>

definition remote_partitions_spec :: "nat list \<Rightarrow> nat list \<Rightarrow> nat \<Rightarrow> int \<Rightarrow> int list" where
  "remote_partitions_spec valid_splitters target_counts unit_at_begin self =
     (if target_counts ! unit_at_begin > 0 \<and> int unit_at_begin \<noteq> self then [int unit_at_begin] else [])
     @ map int (filter (\<lambda>r. target_counts ! r > 0 \<and> int r \<noteq> self)
                  (map (\<lambda>s. s + 1) valid_splitters))"

text \<open>What the lambda of the \<^verbatim>\<open>std::transform\<close> yields for one splitter whose right
  unit is a valid subscript.\<close>

definition mark_right :: "team_unit_t \<Rightarrow> team_unit_t \<Rightarrow> size_t list \<Rightarrow> size_t \<Rightarrow> team_unit_t" where
  "mark_right undefined_unit whoami target_counts splitter =
     (if target_counts ! (unat splitter + 1) \<noteq> 0 \<and> whoami \<noteq> ucast splitter + 1
      then ucast splitter + 1 else undefined_unit)"

section \<open>Parallel sort: data exchange (Merge.h)\<close>

text \<open>
  Modelled from the spec: \<^verbatim>\<open>dart_handle_t\<close> and \<^verbatim>\<open>DART_HANDLE_NULL\<close> are declared
  in \<^verbatim>\<open>dart_types.h\<close>, not among the sources. The specification (3) calls a handle
  an opaque completion token with a null sentinel for "no outstanding operation".
\<close>

datatype dart_handle_t = DART_HANDLE_NULL | Handle nat

text \<open>
  One call of \<^verbatim>\<open>dash::internal::get_handle\<close>: the global position copied from
  (\<^verbatim>\<open>it_src + src_disp\<close>), the local destination (\<^verbatim>\<open>to_local_begin + target_disp\<close>)
  and the number of elements.
\<close>

record get_request =
  src_pos :: "64 word"
  dst_base :: addr_t
  dst_disp :: size_t
  nelem :: size_t

text \<open>
  What \<^verbatim>\<open>psort__exchange_data\<close> reads from the iterator \<^verbatim>\<open>from_global_begin\<close>:
  its position, the pattern's \<^verbatim>\<open>unit_at\<close> and \<^verbatim>\<open>global_index (unit, {})\<close>, the size
  of its team; and the handle the transport stores for a request.
\<close>

record exchange_env =
  ex_team_size :: nat
  ex_begin_pos :: "64 word"
  ex_unit_at :: "64 word \<Rightarrow> team_unit_t"
  ex_global_index :: "team_unit_t \<Rightarrow> 64 word"
  ex_get_handle :: "get_request \<Rightarrow> dart_handle_t"

text \<open>The loop over \<^verbatim>\<open>remote_partitions\<close>; the state is the vector of handles and
  the requests issued so far.\<close>

fun exchange_loop ::
  "exchange_env \<Rightarrow> addr_t \<Rightarrow> (team_unit_t \<Rightarrow> size_t \<times> size_t \<times> size_t) \<Rightarrow> team_unit_t list
     \<Rightarrow> dart_handle_t list \<times> get_request list
     \<Rightarrow> sort_error + (dart_handle_t list \<times> get_request list)" where
  "exchange_loop env to_local_begin get_send_info [] st = Inr st"
| "exchange_loop env to_local_begin get_send_info (unit # rest) (handles, gets) =
     (let (target_count, src_disp, target_disp) = get_send_info unit;
          unit_at_begin = ex_unit_at env (ex_begin_pos env);
          it_src = (if unit = unit_at_begin then ex_begin_pos env else ex_global_index env unit);
          req = \<lparr>src_pos = it_src + src_disp, dst_base = to_local_begin,
                 dst_disp = target_disp, nelem = target_count\<rparr>
      in if unit_index unit < length handles
         then exchange_loop env to_local_begin get_send_info rest
                (handles[unit_index unit := ex_get_handle env req], gets @ [req])
         else Inl IndexOutOfBounds)"

definition psort__exchange_data ::
  "exchange_env \<Rightarrow> addr_t \<Rightarrow> team_unit_t list \<Rightarrow> (team_unit_t \<Rightarrow> size_t \<times> size_t \<times> size_t)
     \<Rightarrow> sort_error + (dart_handle_t list \<times> get_request list)" where
  "psort__exchange_data env to_local_begin remote_partitions get_send_info =
     (let nchunks = ex_team_size env;
          handles = replicate nchunks DART_HANDLE_NULL
      in if to_local_begin = NULL then Inr (handles, [])
         else exchange_loop env to_local_begin get_send_info remote_partitions (handles, []))"

section \<open>Parallel sort: copy tasks and the merge tree (Merge.h)\<close>

text \<open>
  The tasks the two functions hand to the thread pool: waiting for a copy handle,
  the caller's local copy, and a merge with the values its closure captures
  (\<^verbatim>\<open>f\<close>, \<^verbatim>\<open>mi\<close>, \<^verbatim>\<open>l\<close>, \<^verbatim>\<open>is_final_merge\<close>, \<^verbatim>\<open>d\<close>, \<^verbatim>\<open>depth\<close>). The pool is the
  list of the tasks submitted so far, and the future \<^verbatim>\<open>submit\<close> returns is the
  position of its task in that list.
\<close>

datatype task = WaitHandle dart_handle_t | LocalCopy | Merge nat nat nat bool nat nat

type_synonym future = nat
type_synonym ThreadPool = "task list"

definition submit :: "ThreadPool \<Rightarrow> task \<Rightarrow> future \<times> ThreadPool" where
  "submit thread_pool t = (length thread_pool, thread_pool @ [t])"

text \<open>
  \<^verbatim>\<open>ChunkRange\<close> is a pair of \<^verbatim>\<open>size_t\<close> and \<^verbatim>\<open>ChunkDependencies\<close> a \<^verbatim>\<open>std::map\<close>
  from ranges to futures: a list of bindings with one binding for a key. Both
  \<^verbatim>\<open>emplace\<close> and the insertion through \<^verbatim>\<open>std::inserter\<close> keep the binding of a
  key that is already there.
\<close>

type_synonym ChunkRange = "nat \<times> nat"
type_synonym ChunkDependencies = "(ChunkRange \<times> future) list"

definition emplace :: "ChunkDependencies \<Rightarrow> ChunkRange \<Rightarrow> future \<Rightarrow> ChunkDependencies" where
  "emplace chunk_dependencies key fut =
     (case map_of chunk_dependencies key of
        None \<Rightarrow> chunk_dependencies @ [(key, fut)]
      | Some _ \<Rightarrow> chunk_dependencies)"

text \<open>The range \<^verbatim>\<open>(partition, partition + 1)\<close> of a unit, converted to \<^verbatim>\<open>size_t\<close>.\<close>

definition unit_range :: "team_unit_t \<Rightarrow> ChunkRange" where
  "unit_range part = (unit_index part, unit_index (part + 1))"

text \<open>The \<^verbatim>\<open>std::transform\<close> of \<^verbatim>\<open>psort__schedule_copy_tasks\<close>: one task per remote
  partition, submitted before its binding is inserted.\<close>

fun schedule_remote ::
  "dart_handle_t list \<Rightarrow> team_unit_t list \<Rightarrow> ThreadPool \<times> ChunkDependencies
     \<Rightarrow> sort_error + (ThreadPool \<times> ChunkDependencies)" where
  "schedule_remote handles [] st = Inr st"
| "schedule_remote handles (part # rest) (thread_pool, chunk_dependencies) =
     (case vector_at handles part of
        Inl e \<Rightarrow> Inl e
      | Inr handle \<Rightarrow>
          (let (fut, thread_pool') = submit thread_pool (WaitHandle handle)
           in schedule_remote handles rest
                (thread_pool', emplace chunk_dependencies (unit_range part) fut)))"

definition psort__schedule_copy_tasks ::
  "team_unit_t list \<Rightarrow> dart_handle_t list \<Rightarrow> ThreadPool \<Rightarrow> team_unit_t
     \<Rightarrow> sort_error + (ChunkDependencies \<times> ThreadPool)" where
  "psort__schedule_copy_tasks remote_partitions copy_handles thread_pool whoami =
     (case schedule_remote copy_handles remote_partitions (thread_pool, []) of
        Inl e \<Rightarrow> Inl e
      | Inr (thread_pool1, chunk_dependencies1) \<Rightarrow>
          (let local_range = unit_range whoami;
               (fut, thread_pool2) = submit thread_pool1 LocalCopy;
               chunk_dependencies2 = emplace chunk_dependencies1 local_range fut
           in if length remote_partitions + 1 = length chunk_dependencies2
              then Inr (chunk_dependencies2, thread_pool2)
              else Inl AssertionFailed))"

text \<open>
  The depth of the merge tree as the specification (phase 6) words it: the
  ceiling of the binary logarithm of \<^verbatim>\<open>nchunks\<close>, over the real numbers. The source
  computes its depth in \<^verbatim>\<open>double\<close> (see \<open>psort__merge_tree\<close> below), which need
  not give this value.
\<close>

definition depth_spec :: "nat \<Rightarrow> nat" where
  "depth_spec nchunks = nat \<lceil>log 2 (real nchunks)\<rceil>"

text \<open>
  The inner loop of \<^verbatim>\<open>psort__merge_tree\<close> over the merges \<^verbatim>\<open>m\<close> of one level. The
  arithmetic is that of \<^verbatim>\<open>size_t\<close>, modulo \<open>2 ^ 64\<close>; \<open>dist'\<close> is the
  variable \<^verbatim>\<open>dist\<close> of the source.
\<close>

function merge_loop ::
  "nat \<Rightarrow> nat \<Rightarrow> nat \<Rightarrow> nat \<Rightarrow> nat \<Rightarrow> bool \<Rightarrow> nat \<Rightarrow> nat
     \<Rightarrow> ThreadPool \<times> ChunkDependencies \<Rightarrow> ThreadPool \<times> ChunkDependencies" where
  "merge_loop m nmerges step dist' npartitions is_final_merge d depth (thread_pool, chunk_dependencies) =
     (if m < nmerges then
        (let f = (m * dist') mod 2 ^ 64;
             mi = (m * dist' + step) mod 2 ^ 64;
             l = min ((m * dist' + dist') mod 2 ^ 64) npartitions;
             (fut, thread_pool') = submit thread_pool (Merge f mi l is_final_merge d depth);
             to_merge = (f, l)
         in merge_loop (m + 1) nmerges step dist' npartitions is_final_merge d depth
              (thread_pool', emplace chunk_dependencies to_merge fut))
      else (thread_pool, chunk_dependencies))"
  by pat_completeness auto
termination
  by (relation "measure (\<lambda>(m, nmerges, _). nmerges - m)") auto

declare merge_loop.simps [simp del]

text \<open>The outer loop over the levels \<^verbatim>\<open>d\<close> of the tree.\<close>

function level_loop ::
  "nat \<Rightarrow> nat \<Rightarrow> nat \<Rightarrow> nat \<Rightarrow> ThreadPool \<times> ChunkDependencies
     \<Rightarrow> ThreadPool \<times> ChunkDependencies" where
  "level_loop d depth nchunks npartitions st =
     (if d < depth then
        (let step = (2 ^ d) mod 2 ^ 64;
             dist' = (step * 2) mod 2 ^ 64;
             nmerges = nchunks div 2;
             is_final_merge = (nchunks = 2);
             st' = merge_loop 0 nmerges step dist' npartitions is_final_merge d depth st
         in level_loop (d + 1) depth (nchunks - nmerges) npartitions st')
      else st)"
  by pat_completeness auto
termination
  by (relation "measure (\<lambda>(d, depth, _). depth - d)") auto

declare level_loop.simps [simp del]

text \<open>
  \<^verbatim>\<open>psort__merge_tree\<close>: the result is the future found under the final range,
  with the pool and the map as the function leaves them. The depth is
  \<^verbatim>\<open>static_cast<size_t>(std::ceil(std::log2(nchunks)))\<close>, evaluated in \<^verbatim>\<open>double\<close>
  by the platform's mathematical library; floating-point arithmetic is outside
  this model, so the function that this expression computes is the first
  argument, \<open>ceil_log2_double\<close>, of which nothing is assumed. For
  \<^verbatim>\<open>nchunks = 0\<close> the logarithm is not finite and its conversion to \<^verbatim>\<open>size_t\<close>
  undefined.
\<close>

definition psort__merge_tree ::
  "(nat \<Rightarrow> nat) \<Rightarrow> ChunkDependencies \<Rightarrow> nat \<Rightarrow> ThreadPool
     \<Rightarrow> sort_error + (future \<times> ThreadPool \<times> ChunkDependencies)" where
  "psort__merge_tree ceil_log2_double chunk_dependencies nchunks thread_pool =
     (if nchunks = 0 then Inl UndefinedConversion
      else
        (let depth = ceil_log2_double nchunks;
             npartitions = nchunks;
             (thread_pool', chunk_dependencies') =
               level_loop 0 depth nchunks npartitions (thread_pool, chunk_dependencies);
             final_range = (0, npartitions)
         in case map_of chunk_dependencies' final_range of
              None \<Rightarrow> Inl OutOfRange
            | Some fut \<Rightarrow> Inr (fut, thread_pool', chunk_dependencies')))"

text \<open>Whether a task is a merge, and the level and the final-merge flag a merge
  task has captured.\<close>

fun task_is_merge :: "task \<Rightarrow> bool" where
  "task_is_merge (Merge f mi l is_final_merge d depth) = True"
| "task_is_merge _ = False"

fun task_level :: "task \<Rightarrow> nat" where
  "task_level (Merge f mi l is_final_merge d depth) = d"
| "task_level _ = 0"

fun task_is_final :: "task \<Rightarrow> bool" where
  "task_is_final (Merge f mi l is_final_merge d depth) = is_final_merge"
| "task_is_final _ = False"

section \<open>Team creation (dart\_team\_group.c, GASPI)\<close>

text \<open>
  Team ids are reduced as \<^verbatim>\<open>GASPI_TYPE_INT\<close>, 32-bit signed integers; GASPI group
  ids are bytes. Every call into the transport or into another DART module yields
  a status, with \<^verbatim>\<open>DART_OK\<close> standing for success.
\<close>

type_synonym dart_team_t = "32 word"
type_synonym gaspi_group_t = "8 word"
type_synonym dart_global_unit_t = "32 word"

text \<open>An entry of the table \<^verbatim>\<open>dart_teams\<close>: the GASPI group and the copy of the
  DART group.\<close>

record 'g dart_team_struct =
  team_gaspi_id :: gaspi_group_t
  team_group :: 'g

text \<open>
  The process-wide variables \<^verbatim>\<open>dart_team_create\<close> reads and writes. The team
  list behind \<^verbatim>\<open>dart_adapt_teamlist_convert\<close> and \<^verbatim>\<open>dart_adapt_teamlist_alloc\<close>
  belongs to \<^verbatim>\<open>dart_team_private.c\<close>, which is not among the sources: its state
  is a value of a type \<open>'tl\<close> and the two functions are arguments.
\<close>

record ('g, 'tl) team_state =
  dart_next_availteamid :: dart_team_t
  gaspi_group_id_top :: gaspi_group_t
  dart_teams :: "nat \<Rightarrow> 'g dart_team_struct"
  teamlist :: 'tl

text \<open>
  The surroundings of one call: the caller's rank, the constant
  \<^verbatim>\<open>DART_TEAM_NULL\<close>, the two team-list functions (\<^verbatim>\<open>-1\<close> is \<open>None\<close>), the group
  operations of \<^verbatim>\<open>dart_group.c\<close>, the status of every transport call, the values
  that the other members of the parent team contribute to the two reductions,
  the group id that the \<open>k\<close>-th call of \<^verbatim>\<open>gaspi_group_create\<close> returns, and
  whether \<^verbatim>\<open>malloc\<close> succeeds.
\<close>

record ('g, 'tl) team_env =
  team_myid :: dart_global_unit_t
  team_null :: dart_team_t
  dart_size_ret :: dart_ret_t
  teamlist_convert :: "'tl \<Rightarrow> dart_team_t \<Rightarrow> nat option"
  teamlist_alloc :: "'tl \<Rightarrow> dart_team_t \<Rightarrow> (nat \<times> 'tl) option"
  allreduce_teamid_ret :: dart_ret_t
  peers_next_availteamid :: "gaspi_group_t \<Rightarrow> dart_team_t list"
  allreduce_group_ret :: dart_ret_t
  peers_group_id_top :: "dart_team_t \<Rightarrow> gaspi_group_t list"
  group_ismember :: "'g \<Rightarrow> dart_global_unit_t \<Rightarrow> bool"
  group_members :: "'g \<Rightarrow> dart_global_unit_t list"
  group_getmembers_ret :: "'g \<Rightarrow> dart_ret_t"
  malloc_ok :: bool
  group_create :: "nat \<Rightarrow> dart_ret_t \<times> gaspi_group_t"
  group_add :: "gaspi_group_t \<Rightarrow> dart_global_unit_t \<Rightarrow> dart_ret_t"
  group_commit :: "gaspi_group_t \<Rightarrow> dart_ret_t"

text \<open>The blocking reductions with \<^verbatim>\<open>MAX\<close>: over signed 32-bit integers and over
  bytes. The caller's own value is the first argument.\<close>

definition smax :: "32 word \<Rightarrow> 32 word \<Rightarrow> 32 word" where
  "smax a b = (if a <s b then b else a)"

definition allreduce_max_int :: "32 word \<Rightarrow> 32 word list \<Rightarrow> 32 word" where
  "allreduce_max_int own peers = fold smax peers own"

definition allreduce_max_byte :: "8 word \<Rightarrow> 8 word list \<Rightarrow> 8 word" where
  "allreduce_max_byte own peers = fold max peers own"

text \<open>
  The loop \<^verbatim>\<open>while (new_gaspi_group <= gaspi_group_max)\<close> around
  \<^verbatim>\<open>gaspi_group_create\<close>. Nothing in the source bounds it, so it runs on fuel:
  \<open>None\<close> is a loop that has not ended when the fuel is used up. The result is
  the status and \<^verbatim>\<open>new_gaspi_group\<close>.
\<close>

fun group_create_loop ::
  "nat \<Rightarrow> (nat \<Rightarrow> dart_ret_t \<times> gaspi_group_t) \<Rightarrow> nat \<Rightarrow> gaspi_group_t \<Rightarrow> gaspi_group_t
     \<Rightarrow> (dart_ret_t \<times> gaspi_group_t) option" where
  "group_create_loop 0 create k new_gaspi_group gaspi_group_max =
     (if new_gaspi_group \<le> gaspi_group_max then None else Some (DART_OK, new_gaspi_group))"
| "group_create_loop (Suc fuel) create k new_gaspi_group gaspi_group_max =
     (if new_gaspi_group \<le> gaspi_group_max then
        (case create k of
           (r, g) \<Rightarrow>
             if r \<noteq> DART_OK then Some (r, new_gaspi_group)
             else group_create_loop fuel create (k + 1) g gaspi_group_max)
      else Some (DART_OK, new_gaspi_group))"

text \<open>The loop over the members of the group around \<^verbatim>\<open>gaspi_group_add\<close>.\<close>

fun group_add_loop ::
  "(gaspi_group_t \<Rightarrow> dart_global_unit_t \<Rightarrow> dart_ret_t) \<Rightarrow> gaspi_group_t
     \<Rightarrow> dart_global_unit_t list \<Rightarrow> dart_ret_t" where
  "group_add_loop add new_gaspi_group [] = DART_OK"
| "group_add_loop add new_gaspi_group (member # rest) =
     (if add new_gaspi_group member \<noteq> DART_OK then add new_gaspi_group member
      else group_add_loop add new_gaspi_group rest)"

text \<open>
  How a call ends: it returns a status, with \<^verbatim>\<open>*newteam\<close> and the process-wide
  variables as it leaves them, or the \<^verbatim>\<open>assert\<close> on the result of \<^verbatim>\<open>malloc\<close>
  stops the process.
\<close>

datatype ('g, 'tl) team_result =
  Return dart_ret_t dart_team_t "('g, 'tl) team_state"
  | AssertFailure

text \<open>
  Modelled from the spec: the macro \<^verbatim>\<open>DART_CHECK_ERROR\<close> is defined in a header
  that is not among the sources; by section 7 of the specification a failure of
  a checked call is reported to the caller unchanged.

  \<^verbatim>\<open>dart_team_create (teamid, group, newteam)\<close>. The last argument is the content
  of \<^verbatim>\<open>*newteam\<close> before the call.
\<close>

definition dart_team_create ::
  "nat \<Rightarrow> ('g, 'tl) team_env \<Rightarrow> ('g, 'tl) team_state \<Rightarrow> dart_team_t \<Rightarrow> 'g \<Rightarrow> dart_team_t
     \<Rightarrow> ('g, 'tl) team_result option" where
  "dart_team_create fuel env st teamid grp newteam =
     (let myid = team_myid env in
      if dart_size_ret env \<noteq> DART_OK then Some (Return (dart_size_ret env) newteam st)
      else case teamlist_convert env (teamlist st) teamid of
        None \<Rightarrow> Some (Return DART_ERR_INVAL newteam st)
      | Some index \<Rightarrow>
         (let parent_gaspi_group = team_gaspi_id (dart_teams st index) in
          if allreduce_teamid_ret env \<noteq> DART_OK
          then Some (Return (allreduce_teamid_ret env) newteam st)
          else
           (let max_teamid = allreduce_max_int (dart_next_availteamid st)
                               (peers_next_availteamid env parent_gaspi_group);
                st1 = st\<lparr>dart_next_availteamid := max_teamid + 1\<rparr> in
            if allreduce_group_ret env \<noteq> DART_OK
            then Some (Return (allreduce_group_ret env) newteam st1)
            else
             (let gaspi_group_max = allreduce_max_byte (gaspi_group_id_top st1)
                                      (peers_group_id_top env teamid) in
              if \<not> group_ismember env grp myid then Some (Return DART_OK newteam st1)
              else
               (let newteam1 = team_null env;
                    gsize = length (group_members env grp) in
                if \<not> malloc_ok env then Some AssertFailure
                else case group_create_loop fuel (group_create env) 0 0 gaspi_group_max of
                  None \<Rightarrow> None
                | Some (r, new_gaspi_group) \<Rightarrow>
                   if r \<noteq> DART_OK then Some (Return r newteam1 st1)
                   else
                    (let st2 = st1\<lparr>gaspi_group_id_top := new_gaspi_group\<rparr> in
                     if group_getmembers_ret env grp \<noteq> DART_OK
                     then Some (Return (group_getmembers_ret env grp) newteam1 st2)
                     else if group_add_loop (group_add env) new_gaspi_group
                               (take gsize (group_members env grp)) \<noteq> DART_OK
                     then Some (Return (group_add_loop (group_add env) new_gaspi_group
                                          (take gsize (group_members env grp))) newteam1 st2)
                     else if group_commit env new_gaspi_group \<noteq> DART_OK
                     then Some (Return (group_commit env new_gaspi_group) newteam1 st2)
                     else case teamlist_alloc env (teamlist st2) max_teamid of
                       None \<Rightarrow> Some (Return DART_ERR_OTHER newteam1 st2)
                     | Some (index', tl') \<Rightarrow>
                         Some (Return DART_OK max_teamid
                           (st2\<lparr>teamlist := tl',
                                dart_teams := (dart_teams st2)
                                  (index' := \<lparr>team_gaspi_id = new_gaspi_group,
                                              team_group = grp\<rparr>)\<rparr>))))))))"

text \<open>The reading of a result: whether the call returned, and then its status,
  \<^verbatim>\<open>*newteam\<close> and \<^verbatim>\<open>dart_next_availteamid\<close>.\<close>

fun returned_status :: "('g, 'tl) team_result option \<Rightarrow> dart_ret_t option" where
  "returned_status (Some (Return r nt st)) = Some r"
| "returned_status _ = None"

fun returned_newteam :: "('g, 'tl) team_result option \<Rightarrow> dart_team_t option" where
  "returned_newteam (Some (Return r nt st)) = Some nt"
| "returned_newteam _ = None"

fun returned_next_availteamid :: "('g, 'tl) team_result option \<Rightarrow> dart_team_t option" where
  "returned_next_availteamid (Some (Return r nt st)) = Some (dart_next_availteamid st)"
| "returned_next_availteamid _ = None"

text \<open>
  A scenario with three units: the caller is unit 1, the parent is the universal
  team 0 in slot 0 of a team list that is a list of optional team ids, groups are
  lists of units, the peers hold the counters 3 and 2 and the caller holds 1.
\<close>

definition example_env :: "(32 word list, 32 word option list) team_env" where
  "example_env =
     \<lparr>team_myid = 1, team_null = - 1, dart_size_ret = DART_OK,
      teamlist_convert = (\<lambda>tl t. if Some t \<in> set tl
                                   then Some (length (takeWhile (\<lambda>x. x \<noteq> Some t) tl)) else None),
      teamlist_alloc = (\<lambda>tl t. if None \<in> set tl
                                 then Some (length (takeWhile (\<lambda>x. x \<noteq> None) tl),
                                            tl[length (takeWhile (\<lambda>x. x \<noteq> None) tl) := Some t])
                                 else None),
      allreduce_teamid_ret = DART_OK,
      peers_next_availteamid = (\<lambda>g. [3, 2]),
      allreduce_group_ret = DART_OK,
      peers_group_id_top = (\<lambda>t. [0, 0]),
      group_ismember = (\<lambda>g u. u \<in> set g),
      group_members = (\<lambda>g. g),
      group_getmembers_ret = (\<lambda>g. DART_OK),
      malloc_ok = True,
      group_create = (\<lambda>k. (DART_OK, of_nat k + 1)),
      group_add = (\<lambda>g u. DART_OK),
      group_commit = (\<lambda>g. DART_OK)\<rparr>"

definition example_state :: "(32 word list, 32 word option list) team_state" where
  "example_state =
     \<lparr>dart_next_availteamid = 1, gaspi_group_id_top = 0,
      dart_teams = (\<lambda>i. \<lparr>team_gaspi_id = 0, team_group = [0, 1, 2]\<rparr>),
      teamlist = [Some 0, None, None]\<rparr>"

section \<open>Allocator equality, address translation and local allocation\<close>

text \<open>
  C7. Two allocators of the same element type are meant to compare equal exactly
  when team id, pool id and size agree. The template operator decides this way,
  but the member operator, which same-type comparisons call, looks at the team
  id only: two allocators on team 1 with four units and the pools
  \<open>a.pmem\<close> and \<open>b.pmem\<close> compare equal although their pool ids differ.
\<close>

theorem operator_eq_same_type_ignores_pool:
  "operator_eq_same_type
     \<lparr>pma_team = 0, pma_team_id = 1, pma_nunits = 4, pma_allocated = [],
      pma_poolId = ''a.pmem'', pma_pmem_pool = 0\<rparr>
     \<lparr>pma_team = 0, pma_team_id = 1, pma_nunits = 4, pma_allocated = [],
      pma_poolId = ''b.pmem'', pma_pmem_pool = 0\<rparr>
   \<and> \<not> same_team_pool_size
     \<lparr>pma_team = 0, pma_team_id = 1, pma_nunits = 4, pma_allocated = [],
      pma_poolId = ''a.pmem'', pma_pmem_pool = 0\<rparr>
     \<lparr>pma_team = 0, pma_team_id = 1, pma_nunits = 4, pma_allocated = [],
      pma_poolId = ''b.pmem'', pma_pmem_pool = 0\<rparr>
   \<and> \<not> operator_eq_template 8 8
     \<lparr>pma_team = 0, pma_team_id = 1, pma_nunits = 4, pma_allocated = [],
      pma_poolId = ''a.pmem'', pma_pmem_pool = 0\<rparr>
     \<lparr>pma_team = 0, pma_team_id = 1, pma_nunits = 4, pma_allocated = [],
      pma_poolId = ''b.pmem'', pma_pmem_pool = 0\<rparr>"
  by (simp add: operator_eq_same_type_def operator_eq_member_def same_team_pool_size_def
      operator_eq_template_def)

text \<open>
  C2. When the segment of a global pointer is 0 or resolves in the translation
  table, \<^verbatim>\<open>dart_gptr_getaddr\<close> returns \<^verbatim>\<open>DART_OK\<close>; the address it stores is the
  base of the segment (of the local pool for segment 0) plus the offset when the
  caller owns the pointer, and \<^verbatim>\<open>NULL\<close> when it does not.
\<close>

theorem dart_gptr_getaddr_local_iff_owner:
  assumes "segid gptr = 0 \<or> seg_resolves env (segid gptr)"
  shows "dart_gptr_getaddr env gptr addr =
           (DART_OK, if env_myid env = unitid gptr
                     then local_base env (segid gptr) + offset gptr else NULL)"
  using assms
  by (auto simp: dart_gptr_getaddr_def seg_resolves_def local_base_def Let_def
      split: option.splits if_splits)

theorem dart_gptr_getaddr_local_iff_owner_witness:
  "dart_gptr_getaddr
     \<lparr>SHAREDMEM_ENABLE = False, env_myid = 2, transtable_get_win = (\<lambda>s. None),
      win_base = (\<lambda>w. 0), transtable_get_selfbaseptr = (\<lambda>s. if s = 5 then Some 4096 else None),
      dart_mempool_localalloc = 256\<rparr>
     \<lparr>unitid = 2, segid = 5, flags = 0, offset = 16\<rparr> 7 = (DART_OK, 4112)
   \<and> dart_gptr_getaddr
     \<lparr>SHAREDMEM_ENABLE = False, env_myid = 3, transtable_get_win = (\<lambda>s. None),
      win_base = (\<lambda>w. 0), transtable_get_selfbaseptr = (\<lambda>s. if s = 5 then Some 4096 else None),
      dart_mempool_localalloc = 256\<rparr>
     \<lparr>unitid = 2, segid = 0, flags = 0, offset = 16\<rparr> 7 = (DART_OK, NULL)"
  using dart_gptr_getaddr_local_iff_owner [of "\<lparr>unitid = 2, segid = 5, flags = 0, offset = 16\<rparr>"
      "\<lparr>SHAREDMEM_ENABLE = False, env_myid = 2, transtable_get_win = (\<lambda>s. None),
      win_base = (\<lambda>w. 0), transtable_get_selfbaseptr = (\<lambda>s. if s = 5 then Some 4096 else None),
      dart_mempool_localalloc = 256\<rparr>" 7]
    dart_gptr_getaddr_local_iff_owner [of "\<lparr>unitid = 2, segid = 0, flags = 0, offset = 16\<rparr>"
      "\<lparr>SHAREDMEM_ENABLE = False, env_myid = 3, transtable_get_win = (\<lambda>s. None),
      win_base = (\<lambda>w. 0), transtable_get_selfbaseptr = (\<lambda>s. if s = 5 then Some 4096 else None),
      dart_mempool_localalloc = 256\<rparr>" 7]
  by (simp add: seg_resolves_def local_base_def)

text \<open>
  C10. When the caller owns the pointer and its segment id is not 0 and does not
  resolve, \<^verbatim>\<open>dart_gptr_getaddr\<close> returns \<^verbatim>\<open>DART_ERR_INVAL\<close> (and leaves
  \<^verbatim>\<open>*addr\<close> as it was) instead of \<^verbatim>\<open>DART_OK\<close> with a null address.
\<close>

theorem dart_gptr_getaddr_unresolved_inval:
  assumes "env_myid env = unitid gptr"
    and "segid gptr \<noteq> 0"
    and "\<not> seg_resolves env (segid gptr)"
  shows "dart_gptr_getaddr env gptr addr = (DART_ERR_INVAL, addr)"
  using assms
  by (auto simp: dart_gptr_getaddr_def seg_resolves_def Let_def split: option.splits if_splits)

theorem dart_gptr_getaddr_unresolved_inval_witness:
  "dart_gptr_getaddr
     \<lparr>SHAREDMEM_ENABLE = True, env_myid = 2, transtable_get_win = (\<lambda>s. if s = 5 then Some 1 else None),
      win_base = (\<lambda>w. 4096), transtable_get_selfbaseptr = (\<lambda>s. None),
      dart_mempool_localalloc = 256\<rparr>
     \<lparr>unitid = 2, segid = 6, flags = 0, offset = 16\<rparr> 7 = (DART_ERR_INVAL, 7)"
  using dart_gptr_getaddr_unresolved_inval [of
      "\<lparr>SHAREDMEM_ENABLE = True, env_myid = 2, transtable_get_win = (\<lambda>s. if s = 5 then Some 1 else None),
      win_base = (\<lambda>w. 4096), transtable_get_selfbaseptr = (\<lambda>s. None),
      dart_mempool_localalloc = 256\<rparr>"
      "\<lparr>unitid = 2, segid = 6, flags = 0, offset = 16\<rparr>" 7]
  by (simp add: seg_resolves_def)

text \<open>
  C9. \<^verbatim>\<open>dart_memalloc\<close> stores segment id 0, flags 0, the calling unit and the
  offset found by the buddy allocator in the global pointer and returns
  \<^verbatim>\<open>DART_OK\<close> when the pool has a block for the request; when it has none the
  call fails with \<^verbatim>\<open>DART_ERR_OTHER\<close> and the pool, free list included, is the one
  from before the call.
\<close>

theorem dart_memalloc_result:
  "(\<forall>off pool'. buddy_take pool (unat nbytes) = Some (off, pool') \<and> off \<noteq> - 1 \<longrightarrow>
      dart_memalloc myid pool nbytes gptr =
        (DART_OK, \<lparr>unitid = myid, segid = 0, flags = 0, offset = off\<rparr>, pool'))
   \<and> (buddy_take pool (unat nbytes) = None \<longrightarrow>
      dart_memalloc myid pool nbytes gptr =
        (DART_ERR_OTHER, \<lparr>unitid = myid, segid = 0, flags = 0, offset = - 1\<rparr>, pool))"
  by (cases gptr) (auto simp: dart_memalloc_def dart_buddy_alloc_def Let_def)

theorem dart_memalloc_result_witness:
  "dart_memalloc 3 \<lparr>free_list = [[], [], [0]]\<rparr> 1 \<lparr>unitid = 0, segid = 9, flags = 9, offset = 9\<rparr> =
     (DART_OK, \<lparr>unitid = 3, segid = 0, flags = 0, offset = 0\<rparr>, \<lparr>free_list = [[1], [2], []]\<rparr>)
   \<and> dart_memalloc 3 \<lparr>free_list = [[], [], []]\<rparr> 1 \<lparr>unitid = 0, segid = 9, flags = 9, offset = 9\<rparr> =
     (DART_ERR_OTHER, \<lparr>unitid = 3, segid = 0, flags = 0, offset = - 1\<rparr>, \<lparr>free_list = [[], [], []]\<rparr>)"
proof -
  have some: "buddy_take \<lparr>free_list = [[], [], [0]]\<rparr> (unat (1 :: 64 word)) =
      Some (0, \<lparr>free_list = [[1], [2], []]\<rparr>)"
    by (simp add: buddy_take_def buddy_class_def upt_rec)
  have none: "buddy_take \<lparr>free_list = [[], [], []]\<rparr> (unat (1 :: 64 word)) = None"
    by (simp add: buddy_take_def buddy_class_def upt_rec)
  show ?thesis
    using dart_memalloc_result [of "\<lparr>free_list = [[], [], [0]]\<rparr>" 1 3
        "\<lparr>unitid = 0, segid = 9, flags = 9, offset = 9\<rparr>"]
      dart_memalloc_result [of "\<lparr>free_list = [[], [], []]\<rparr>" 1 3
        "\<lparr>unitid = 0, segid = 9, flags = 9, offset = 9\<rparr>"]
      some none
    by simp
qed

section \<open>Units as subscripts\<close>

lemma sint_small:
  fixes w :: "32 word"
  assumes "unat w < 2 ^ 31"
  shows "sint w = int (unat w)"
proof -
  have "int (unat w) < 2 ^ 31" using assms by (metis of_nat_less_iff of_nat_numeral of_nat_power)
  then have "uint w < 2 ^ 31" by (simp only: uint_nat)
  moreover have "- (2 ^ 31) \<le> uint w" by (rule order_trans [of _ 0]) simp_all
  ultimately have "signed_take_bit 31 (uint w) = uint w"
    by (intro signed_take_bit_int_eq_self)
  then show ?thesis by (simp add: sint_uint)
qed

lemma unit_index_small:
  fixes w :: "32 word"
  assumes "unat w < 2 ^ 31"
  shows "unit_index w = unat w"
proof -
  have "scast w = (word_of_nat (unat w) :: 64 word)"
    using sint_small [OF assms] by (simp add: scast_eq)
  then have "unit_index w = unat w mod 2 ^ 64"
    by (simp add: unit_index_def unat_of_nat del: of_nat_unat)
  moreover have "unat w < 2 ^ 64" using assms by (rule less_trans) simp
  ultimately show ?thesis by simp
qed

lemma right_unit_unat:
  fixes s :: "64 word"
  assumes "unat s + 1 < 2 ^ 31"
  shows "unat ((ucast s :: 32 word) + 1) = unat s + 1"
proof -
  have "unat s < 2 ^ 32" using assms by simp
  then have u: "unat (ucast s :: 32 word) = unat s"
    by (simp add: unsigned_ucast_eq take_bit_nat_eq_self)
  have "unat (ucast s :: 32 word) + unat (1 :: 32 word) < 2 ^ LENGTH(32)"
    using assms u by simp
  then have "unat ((ucast s :: 32 word) + 1) = unat (ucast s :: 32 word) + unat (1 :: 32 word)"
    by (simp only: unat_add_lem)
  then show ?thesis using u by simp
qed

lemma unit_index_nonneg:
  fixes u :: "32 word"
  assumes "0 \<le> sint u"
  shows "unit_index u = nat (sint u)" and "unat u < 2 ^ 31"
proof -
  have lt: "sint u < 2 ^ 31" using sint_lt [of u] by simp
  have "u = word_of_int (sint u)" by simp
  then have "uint u = take_bit 32 (sint u)"
    by (metis uint_word_of_int_eq len_num1 len_bit0 mult_2 numeral_Bit0 numeral_One)
  also have "\<dots> = sint u"
    using assms lt by (intro take_bit_int_eq_self) simp_all
  finally have "int (unat u) < 2 ^ 31" using lt by (simp only: uint_nat [symmetric])
  then show b: "unat u < 2 ^ 31" by (metis of_nat_less_iff of_nat_numeral of_nat_power)
  show "unit_index u = nat (sint u)"
    using unit_index_small [OF b] sint_small [OF b] by simp
qed

lemma unit_index_inj: "unit_index u = unit_index v \<Longrightarrow> u = v"
proof -
  assume "unit_index u = unit_index v"
  then have "(scast u :: 64 word) = scast v"
    unfolding unit_index_def by (rule unsigned_word_eqI)
  then have "(scast (scast u :: 64 word) :: 32 word) = scast (scast v :: 64 word)" by simp
  then show "u = v" by (simp add: scast_up_scast_id is_up)
qed

lemma unit_range_inj: "unit_range u = unit_range v \<Longrightarrow> u = v"
  by (simp add: unit_range_def unit_index_inj)

section \<open>Remote partitions\<close>

lemma vector_at_in_range:
  "unit_index u < length v \<Longrightarrow> vector_at v u = Inr (v ! unit_index u)"
  by (simp add: vector_at_def)

lemma transform_splitters_valid:
  assumes "\<forall>s \<in> set ss. unat s + 1 < length tc" and "length tc \<le> 2 ^ 31"
  shows "transform_splitters un w tc ss = Inr (map (mark_right un w tc) ss)"
  using assms(1)
proof (induction ss)
  case Nil
  then show ?case by simp
next
  case (Cons s ss)
  have b: "unat s + 1 < 2 ^ 31" using Cons.prems assms(2) by auto
  have "unat ((ucast s :: 32 word) + 1) < 2 ^ 31" using right_unit_unat [OF b] b by simp
  then have "unit_index ((ucast s :: 32 word) + 1) = unat s + 1"
    using unit_index_small right_unit_unat [OF b] by simp
  moreover have "unat s + 1 < length tc" using Cons.prems by simp
  ultimately have "vector_at tc ((ucast s :: 32 word) + 1) = Inr (tc ! (unat s + 1))"
    by (simp add: vector_at_def)
  moreover have "transform_splitters un w tc ss = Inr (map (mark_right un w tc) ss)"
    using Cons by simp
  ultimately show ?case by (simp add: Let_def mark_right_def)
qed

lemma filter_marked:
  assumes "\<forall>s \<in> set ss. unat s + 1 < length tc" and "length tc \<le> 2 ^ 31" and "sint un < 0"
  shows "map sint (filter (\<lambda>u. u \<noteq> un) (map (mark_right un w tc) ss)) =
         map int (filter (\<lambda>r. map unat tc ! r > 0 \<and> int r \<noteq> sint w) (map (\<lambda>s. s + 1) (map unat ss)))"
  using assms(1)
proof (induction ss)
  case Nil
  then show ?case by simp
next
  case (Cons s ss)
  have b: "unat s + 1 < 2 ^ 31" using Cons.prems assms(2) by auto
  have r: "unat ((ucast s :: 32 word) + 1) = unat s + 1" by (rule right_unit_unat [OF b])
  have sr: "sint ((ucast s :: 32 word) + 1) = int (unat s + 1)"
    using sint_small [of "(ucast s :: 32 word) + 1"] r b by simp
  have "0 \<le> sint ((ucast s :: 32 word) + 1)" by (simp only: sr of_nat_0_le_iff)
  then have ne: "(ucast s :: 32 word) + 1 \<noteq> un" using assms(3) by auto
  have weq: "w \<noteq> (ucast s :: 32 word) + 1 \<longleftrightarrow> int (unat s + 1) \<noteq> sint w"
    using sr by (metis signed_word_eqI)
  have len: "unat s + 1 < length tc" using Cons.prems by simp
  have cnt: "tc ! (unat s + 1) \<noteq> 0 \<longleftrightarrow> map unat tc ! (unat s + 1) > 0"
    using len by (simp add: unat_gt_0)
  have IH: "map sint (filter (\<lambda>u. u \<noteq> un) (map (mark_right un w tc) ss)) =
         map int (filter (\<lambda>r. map unat tc ! r > 0 \<and> int r \<noteq> sint w) (map (\<lambda>s. s + 1) (map unat ss)))"
    using Cons by simp
  show ?case
  proof (cases "tc ! (unat s + 1) \<noteq> 0 \<and> w \<noteq> (ucast s :: 32 word) + 1")
    case True
    then have "mark_right un w tc s = ucast s + 1" by (simp add: mark_right_def)
    then show ?thesis using True ne sr IH weq cnt by simp
  next
    case False
    then have "mark_right un w tc s = un" by (auto simp add: mark_right_def)
    then show ?thesis using False IH weq cnt by auto
  qed
qed

text \<open>
  C3. When the sentinel is negative (it is \<open>-1\<close>), \<^verbatim>\<open>unit_at_begin\<close> and every
  \<open>s + 1\<close> for a splitter \<open>s\<close> are valid subscripts of \<^verbatim>\<open>target_counts\<close>, and
  \<^verbatim>\<open>target_counts\<close> has at most \<open>2 ^ 31\<close> entries (units are 32-bit signed),
  \<^verbatim>\<open>psort__remote_partitions\<close> returns exactly the list of the specification:
  \<^verbatim>\<open>unit_at_begin\<close> if it has a positive count and is not the caller, then the
  units \<open>s + 1\<close> with a positive count that are not the caller, in input order.
\<close>

theorem psort__remote_partitions_refines_spec:
  assumes "sint undefined_unit < 0"
    and "length target_counts \<le> 2 ^ 31"
    and "0 \<le> sint unit_at_begin" and "nat (sint unit_at_begin) < length target_counts"
    and "\<forall>s \<in> set valid_splitters. unat s + 1 < length target_counts"
  shows "map_sum id (map sint)
           (psort__remote_partitions undefined_unit valid_splitters target_counts nunits unit_at_begin whoami) =
         Inr (remote_partitions_spec (map unat valid_splitters) (map unat target_counts)
                (nat (sint unit_at_begin)) (sint whoami))"
proof -
  have ui: "unit_index unit_at_begin = nat (sint unit_at_begin)"
    using assms(3) by (rule unit_index_nonneg)
  have va: "vector_at target_counts unit_at_begin = Inr (target_counts ! nat (sint unit_at_begin))"
    using ui assms(4) by (simp add: vector_at_def)
  have ne: "unit_at_begin \<noteq> undefined_unit" using assms(1,3) by auto
  have weq: "whoami \<noteq> unit_at_begin \<longleftrightarrow> int (nat (sint unit_at_begin)) \<noteq> sint whoami"
    using assms(3) by (metis int_nat_eq signed_word_eqI)
  have cnt: "target_counts ! nat (sint unit_at_begin) \<noteq> 0 \<longleftrightarrow>
      map unat target_counts ! nat (sint unit_at_begin) > 0"
    using assms(4) by (simp add: unat_gt_0)
  show ?thesis
    using va ne weq cnt assms(3)
      transform_splitters_valid [OF assms(5,2), of undefined_unit whoami]
      filter_marked [OF assms(5,2,1), of whoami]
    by (simp add: psort__remote_partitions_def remote_partitions_spec_def Let_def)
qed

theorem psort__remote_partitions_refines_spec_witness:
  "map_sum id (map sint) (psort__remote_partitions (- 1) [0, 1, 2] [3, 0, 5, 7] 4 0 3) = Inr [0, 2]"
  using psort__remote_partitions_refines_spec [where undefined_unit = "- 1"
      and target_counts = "[3, 0, 5, 7]" and unit_at_begin = 0 and valid_splitters = "[0, 1, 2]"
      and nunits = 4 and whoami = 3]
  by (simp add: remote_partitions_spec_def)

section \<open>Data exchange\<close>

lemma exchange_loop_keeps:
  assumes "exchange_loop env p gsi rp (hs, gets) = Inr (hs', gets')"
  shows "length hs' = length hs \<and>
         (\<forall>u. u \<notin> set rp \<longrightarrow> hs' ! unit_index u = hs ! unit_index u)"
  using assms
proof (induction rp arbitrary: hs gets)
  case Nil
  then show ?case by simp
next
  case (Cons unit rp)
  obtain tc sd td where gsi: "gsi unit = (tc, sd, td)" by (cases "gsi unit") auto
  let ?req = "\<lparr>src_pos = (if unit = ex_unit_at env (ex_begin_pos env) then ex_begin_pos env
                  else ex_global_index env unit) + sd,
               dst_base = p, dst_disp = td, nelem = tc\<rparr>"
  from Cons.prems gsi have inr: "unit_index unit < length hs"
    by (auto simp: Let_def split: if_splits)
  with Cons.prems gsi have rec: "exchange_loop env p gsi rp
      (hs[unit_index unit := ex_get_handle env ?req], gets @ [?req]) = Inr (hs', gets')"
    by (simp add: Let_def)
  from Cons.IH [OF rec] have len: "length hs' = length hs"
    and keep: "\<And>u. u \<notin> set rp \<Longrightarrow>
       hs' ! unit_index u = hs[unit_index unit := ex_get_handle env ?req] ! unit_index u"
    by simp_all
  show ?case
  proof (intro conjI allI impI)
    show "length hs' = length hs" by (rule len)
  next
    fix u assume u: "u \<notin> set (unit # rp)"
    then have "unit_index unit \<noteq> unit_index u" using unit_index_inj by auto
    then show "hs' ! unit_index u = hs ! unit_index u" using keep [of u] u by simp
  qed
qed

text \<open>
  C8. With a null \<^verbatim>\<open>to_local_begin\<close> the function issues no request and returns
  \<^verbatim>\<open>team.size()\<close> handles that are all \<^verbatim>\<open>DART_HANDLE_NULL\<close>; and whenever it
  returns, the vector has \<^verbatim>\<open>team.size()\<close> handles and the handle of every unit
  that is not in \<^verbatim>\<open>remote_partitions\<close> is \<^verbatim>\<open>DART_HANDLE_NULL\<close>.
\<close>

theorem psort__exchange_data_null_handles:
  "psort__exchange_data env NULL remote_partitions get_send_info =
     Inr (replicate (ex_team_size env) DART_HANDLE_NULL, [])
   \<and> (\<forall>handles gets.
        psort__exchange_data env to_local_begin remote_partitions get_send_info = Inr (handles, gets) \<longrightarrow>
        length handles = ex_team_size env \<and>
        (\<forall>u. unit_index u < ex_team_size env \<and> u \<notin> set remote_partitions \<longrightarrow>
             handles ! unit_index u = DART_HANDLE_NULL))"
proof (intro conjI allI impI)
  show "psort__exchange_data env NULL remote_partitions get_send_info =
     Inr (replicate (ex_team_size env) DART_HANDLE_NULL, [])"
    by (simp add: psort__exchange_data_def)
next
  fix handles gets
  assume r: "psort__exchange_data env to_local_begin remote_partitions get_send_info = Inr (handles, gets)"
  show "length handles = ex_team_size env"
  proof (cases "to_local_begin = NULL")
    case True
    with r show ?thesis by (auto simp: psort__exchange_data_def)
  next
    case False
    with r show ?thesis using exchange_loop_keeps
      by (fastforce simp: psort__exchange_data_def Let_def)
  qed
next
  fix handles gets u
  assume r: "psort__exchange_data env to_local_begin remote_partitions get_send_info = Inr (handles, gets)"
    and u: "unit_index u < ex_team_size env \<and> u \<notin> set remote_partitions"
  show "handles ! unit_index u = DART_HANDLE_NULL"
  proof (cases "to_local_begin = NULL")
    case True
    with r u show ?thesis by (auto simp: psort__exchange_data_def)
  next
    case False
    with r have "exchange_loop env to_local_begin get_send_info remote_partitions
        (replicate (ex_team_size env) DART_HANDLE_NULL, []) = Inr (handles, gets)"
      by (simp add: psort__exchange_data_def Let_def)
    from exchange_loop_keeps [OF this] u show ?thesis by simp
  qed
qed

theorem psort__exchange_data_null_handles_witness:
  "psort__exchange_data
     \<lparr>ex_team_size = 3, ex_begin_pos = 0, ex_unit_at = (\<lambda>pos. 0),
      ex_global_index = (\<lambda>u. 10 * ucast u), ex_get_handle = (\<lambda>r. Handle (unat (src_pos r)))\<rparr>
     NULL [2] (\<lambda>u. (4, 1, 0)) = Inr ([DART_HANDLE_NULL, DART_HANDLE_NULL, DART_HANDLE_NULL], [])
   \<and> psort__exchange_data
     \<lparr>ex_team_size = 3, ex_begin_pos = 0, ex_unit_at = (\<lambda>pos. 0),
      ex_global_index = (\<lambda>u. 10 * ucast u), ex_get_handle = (\<lambda>r. Handle (unat (src_pos r)))\<rparr>
     4096 [2] (\<lambda>u. (4, 1, 0)) =
       Inr ([DART_HANDLE_NULL, DART_HANDLE_NULL, Handle 21],
            [\<lparr>src_pos = 21, dst_base = 4096, dst_disp = 0, nelem = 4\<rparr>])
   \<and> [DART_HANDLE_NULL, DART_HANDLE_NULL, Handle 21] ! unit_index 1 = DART_HANDLE_NULL"
  using psort__exchange_data_null_handles [of
      "\<lparr>ex_team_size = 3, ex_begin_pos = 0, ex_unit_at = (\<lambda>pos. 0),
      ex_global_index = (\<lambda>u. 10 * ucast u), ex_get_handle = (\<lambda>r. Handle (unat (src_pos r)))\<rparr>"
      "[2]" "\<lambda>u. (4, 1, 0)" 4096]
  by (simp add: psort__exchange_data_def NULL_def unit_index_def numeral_3_eq_3)

section \<open>Copy tasks\<close>

lemma emplace_fresh:
  "key \<notin> fst ` set deps \<Longrightarrow> emplace deps key fut = deps @ [(key, fut)]"
proof -
  assume "key \<notin> fst ` set deps"
  then have "map_of deps key = None" by (simp add: map_of_eq_None_iff)
  then show ?thesis by (simp add: emplace_def)
qed

lemma schedule_remote_fresh:
  assumes "\<forall>p \<in> set rp. unit_index p < length hs"
    and "distinct rp"
    and "unit_range ` set rp \<inter> fst ` set deps = {}"
  shows "\<exists>deps'. schedule_remote hs rp (pool, deps) =
           Inr (pool @ map (\<lambda>p. WaitHandle (hs ! unit_index p)) rp, deps') \<and>
           map fst deps' = map fst deps @ map unit_range rp"
  using assms
proof (induction rp arbitrary: pool deps)
  case Nil
  then show ?case by simp
next
  case (Cons p rp)
  have va: "vector_at hs p = Inr (hs ! unit_index p)" using Cons.prems(1) by (simp add: vector_at_def)
  have fresh: "unit_range p \<notin> fst ` set deps" using Cons.prems(3) by auto
  let ?deps = "deps @ [(unit_range p, length pool)]"
  let ?pool = "pool @ [WaitHandle (hs ! unit_index p)]"
  have step: "schedule_remote hs (p # rp) (pool, deps) = schedule_remote hs rp (?pool, ?deps)"
    using va fresh by (simp add: submit_def emplace_fresh)
  have "unit_range ` set rp \<inter> fst ` set ?deps = {}"
    using Cons.prems(2,3) unit_range_inj by auto
  with Cons.IH [where pool = ?pool and deps = ?deps] Cons.prems
  obtain deps' where "schedule_remote hs rp (?pool, ?deps) =
      Inr (?pool @ map (\<lambda>p. WaitHandle (hs ! unit_index p)) rp, deps')"
    and "map fst deps' = map fst ?deps @ map unit_range rp"
    by auto
  then show ?case using step by simp
qed

lemma unit_range_valid:
  fixes p :: "32 word"
  assumes "0 \<le> sint p" and "sint p < 2 ^ 31 - 1"
  shows "unit_range p = (nat (sint p), nat (sint p) + 1)"
proof -
  have b: "unat p < 2 ^ 31" and i: "unit_index p = nat (sint p)"
    using unit_index_nonneg [OF assms(1)] by simp_all
  have s: "sint p = int (unat p)" using sint_small [OF b] .
  have "int (unat p) < 2 ^ 31 - 1" using assms(2) by (simp only: s)
  then have "unat p + 1 < 2 ^ 31" by (simp del: of_nat_unat)
  then have "unat p + unat (1 :: 32 word) < 2 ^ LENGTH(32)" by simp
  then have "unat (p + 1) = unat p + unat (1 :: 32 word)" by (simp only: unat_add_lem)
  then have u: "unat (p + 1) = unat p + 1" by simp
  then have "unat (p + 1) < 2 ^ 31" using \<open>unat p + 1 < 2 ^ 31\<close> by simp
  then have "unit_index (p + 1) = unat p + 1" using unit_index_small [of "p + 1"] u by simp
  then show ?thesis using i s by (simp add: unit_range_def)
qed

text \<open>
  C5. For pairwise distinct remote partitions that differ from \<^verbatim>\<open>whoami\<close> (and
  subscript \<^verbatim>\<open>copy_handles\<close> inside its bounds), \<^verbatim>\<open>psort__schedule_copy_tasks\<close>
  passes its assertion and returns a map with \<open>|remote_partitions| + 1\<close>
  bindings: the range of every remote partition, in input order, and the range
  of \<^verbatim>\<open>whoami\<close>; the range of a unit \<open>p\<close> is \<open>[p, p + 1)\<close>.
\<close>

theorem psort__schedule_copy_tasks_size:
  assumes "distinct remote_partitions"
    and "whoami \<notin> set remote_partitions"
    and "\<forall>p \<in> set remote_partitions. unit_index p < length copy_handles"
  shows "\<exists>chunk_dependencies thread_pool'.
           psort__schedule_copy_tasks remote_partitions copy_handles thread_pool whoami =
             Inr (chunk_dependencies, thread_pool') \<and>
           length chunk_dependencies = length remote_partitions + 1 \<and>
           distinct (map fst chunk_dependencies) \<and>
           map fst chunk_dependencies = map unit_range remote_partitions @ [unit_range whoami] \<and>
           (\<forall>p \<in> set (whoami # remote_partitions). 0 \<le> sint p \<and> sint p < 2 ^ 31 - 1 \<longrightarrow>
              unit_range p = (nat (sint p), nat (sint p) + 1))"
proof -
  from schedule_remote_fresh [OF assms(3,1), of "[]" thread_pool]
  obtain deps1 where s: "schedule_remote copy_handles remote_partitions (thread_pool, []) =
      Inr (thread_pool @ map (\<lambda>p. WaitHandle (copy_handles ! unit_index p)) remote_partitions, deps1)"
    and k: "map fst deps1 = map unit_range remote_partitions"
    by auto
  have "unit_range whoami \<notin> unit_range ` set remote_partitions"
    using assms(2) unit_range_inj by auto
  then have fresh: "unit_range whoami \<notin> fst ` set deps1"
    using k by (metis list.set_map)
  have len: "length deps1 = length remote_partitions"
    using k by (metis length_map)
  have d: "distinct (map unit_range remote_partitions)"
    using assms(1) unit_range_inj by (simp add: distinct_map inj_on_def)
  show ?thesis
    using s k fresh len d \<open>unit_range whoami \<notin> unit_range ` set remote_partitions\<close> unit_range_valid
    by (simp add: psort__schedule_copy_tasks_def submit_def emplace_fresh Let_def)
qed

theorem psort__schedule_copy_tasks_size_witness:
  "distinct [0, 2 :: 32 word] \<and> (1 :: 32 word) \<notin> set [0, 2]
   \<and> psort__schedule_copy_tasks [0, 2] [Handle 5, DART_HANDLE_NULL, Handle 6] [] 1 =
       Inr ([((0, 1), 0), ((2, 3), 1), ((1, 2), 2)],
            [WaitHandle (Handle 5), WaitHandle (Handle 6), LocalCopy])"
  using psort__schedule_copy_tasks_size [of "[0, 2]" 1 "[Handle 5, DART_HANDLE_NULL, Handle 6]" "[]"]
  by (simp add: psort__schedule_copy_tasks_def vector_at_def unit_index_def unit_range_def
      submit_def emplace_def)

section \<open>Merge tree\<close>

lemma depth_spec_ceillog2: "0 < n \<Longrightarrow> depth_spec n = ceillog2 n"
  by (simp add: depth_spec_def ceillog2_def)

lemma ceillog2_eq_1: "ceillog2 k = 1 \<Longrightarrow> k = 2"
proof -
  assume a: "ceillog2 k = 1"
  then have "k \<noteq> 0" by (metis ceillog2_0 zero_neq_one)
  then have k: "k > 0" by simp
  from a have "ceillog2 k \<le> 1" by simp
  with k have "k \<le> 2" by (simp add: ceillog2_le_iff)
  moreover from a have "1 \<le> ceillog2 k" by simp
  with k have "2 ^ 1 < 2 * k" by (simp only: ceillog2_ge_iff)
  ultimately show "k = 2" by simp
qed

lemma ceillog2_halve:
  assumes "2 \<le> ceillog2 k"
  shows "ceillog2 (k - k div 2) = ceillog2 k - 1" and "3 \<le> k"
proof -
  have k1: "\<not> k \<le> 1" using assms by (metis ceillog2_le1_eq_0 not_numeral_le_zero)
  have "k - k div 2 = (k + 1) div 2" by presburger
  then show "ceillog2 (k - k div 2) = ceillog2 k - 1"
    using ceillog2_rec [of k] k1 by simp
  have "k \<noteq> 2" using assms by auto
  then show "3 \<le> k" using k1 by simp
qed

lemma map_of_emplace_other:
  "key \<noteq> k \<Longrightarrow> map_of (emplace deps key fut) k = map_of deps k"
  by (auto simp: emplace_def map_add_def split: option.splits)

lemma map_of_emplace_same:
  "map_of (emplace deps key fut) key = (case map_of deps key of None \<Rightarrow> Some fut | Some v \<Rightarrow> Some v)"
  by (auto simp: emplace_def map_add_def split: option.splits)

lemma merge_loop_early:
  assumes "0 < dist'" and "dist' < n" and "nm * dist' < 2 ^ 64"
  shows "\<exists>T deps1. merge_loop m nm step dist' n False d depth (pool, deps) = (pool @ T, deps1) \<and>
           (\<forall>t \<in> set T. task_is_merge t \<and> \<not> task_is_final t \<and> task_level t = d) \<and>
           map_of deps1 (0, n) = map_of deps (0, n)"
proof (induction "nm - m" arbitrary: m pool deps)
  case 0
  then have "\<not> m < nm" by simp
  then have "merge_loop m nm step dist' n False d depth (pool, deps) = (pool, deps)"
    by (simp add: merge_loop.simps)
  then show ?case by simp
next
  case (Suc k)
  then have m: "m < nm" by simp
  let ?f = "(m * dist') mod 2 ^ 64"
  let ?mi = "(m * dist' + step) mod 2 ^ 64"
  let ?l = "min ((m * dist' + dist') mod 2 ^ 64) n"
  let ?t = "Merge ?f ?mi ?l False d depth"
  let ?deps = "emplace deps (?f, ?l) (length pool)"
  have step: "merge_loop m nm step dist' n False d depth (pool, deps) =
      merge_loop (m + 1) nm step dist' n False d depth (pool @ [?t], ?deps)"
    using m by (subst merge_loop.simps) (simp add: Let_def submit_def)
  have "m * dist' < nm * dist'" using m assms(1) by simp
  then have "m * dist' < 2 ^ 64" using assms(3) by (rule less_trans)
  then have f: "?f = m * dist'" by (rule mod_less)
  have key: "(?f, ?l) \<noteq> (0, n)"
  proof (cases "m = 0")
    case True
    have "dist' mod 2 ^ 64 \<le> dist'" by simp
    then have "?l < n" using True assms(2) by simp
    then show ?thesis by (metis Pair_inject less_irrefl)
  next
    case False
    then have "?f \<noteq> 0" using f assms(1) by simp
    then show ?thesis by (metis Pair_inject)
  qed
  have k: "k = nm - (m + 1)" using Suc(2) by simp
  from Suc(1) [OF k, of "pool @ [?t]" ?deps]
  obtain T deps1 where r: "merge_loop (m + 1) nm step dist' n False d depth (pool @ [?t], ?deps) =
      ((pool @ [?t]) @ T, deps1)"
    and T: "\<forall>t \<in> set T. task_is_merge t \<and> \<not> task_is_final t \<and> task_level t = d"
    and mo: "map_of deps1 (0, n) = map_of ?deps (0, n)"
    by blast
  have "map_of deps1 (0, n) = map_of deps (0, n)"
    using mo map_of_emplace_other [OF key] by simp
  moreover have "\<forall>t \<in> set (?t # T). task_is_merge t \<and> \<not> task_is_final t \<and> task_level t = d"
    using T by simp
  ultimately show ?case using step r by (intro exI [of _ "?t # T"] exI [of _ deps1]) simp
qed

lemma merge_loop_final:
  "merge_loop 0 1 step dist' n fin d depth (pool, deps) =
     (pool @ [Merge 0 (step mod 2 ^ 64) (min (dist' mod 2 ^ 64) n) fin d depth],
      emplace deps (0, min (dist' mod 2 ^ 64) n) (length pool))"
  by (subst merge_loop.simps, subst merge_loop.simps) (simp add: Let_def submit_def)

lemma level_loop_tree:
  assumes "depth \<le> 63" and "n \<le> 2 ^ depth" and "2 ^ depth < 2 * n"
  shows "d < depth \<Longrightarrow> ceillog2 nchunks = depth - d \<Longrightarrow>
         \<exists>T deps1. level_loop d depth nchunks n (pool, deps) =
             (pool @ T @ [Merge 0 (2 ^ (depth - 1)) n True (depth - 1) depth],
              emplace deps1 (0, n) (length pool + length T)) \<and>
           (\<forall>t \<in> set T. task_is_merge t \<and> \<not> task_is_final t \<and> task_level t < depth - 1) \<and>
           map_of deps1 (0, n) = map_of deps (0, n)"
proof (induction "depth - d" arbitrary: d nchunks pool deps)
  case 0
  then show ?case by simp
next
  case (Suc k)
  have d63: "d < 63" using Suc.prems(1) assms(1) by simp
  have "(2::nat) ^ d < 2 ^ 64" by (rule power_strict_increasing) (use d63 in simp_all)
  then have stepv: "(2::nat) ^ d mod 2 ^ 64 = 2 ^ d" by (rule mod_less)
  have "(2::nat) ^ (d + 1) < 2 ^ 64" by (rule power_strict_increasing) (use d63 in simp_all)
  then have distv: "((2::nat) ^ d * 2) mod 2 ^ 64 = 2 ^ (d + 1)" by simp
  have unfold: "level_loop d depth nchunks n (pool, deps) =
      level_loop (d + 1) depth (nchunks - nchunks div 2) n
        (merge_loop 0 (nchunks div 2) (2 ^ d) (2 ^ (d + 1)) n (nchunks = 2) d depth (pool, deps))"
    using Suc.prems(1) stepv distv by (subst level_loop.simps) (simp add: Let_def)
  show ?case
  proof (cases "k = 0")
    case True
    then have dd: "d + 1 = depth" using Suc(2) by simp
    then have "ceillog2 nchunks = 1" using Suc.prems(2) by simp
    then have nc: "nchunks = 2" by (rule ceillog2_eq_1)
    have dm: "depth - 1 = d" using dd by simp
    have p: "(2::nat) ^ depth < 2 ^ 64"
      by (rule power_strict_increasing) (use assms(1) in simp_all)
    have l: "min ((2::nat) ^ (d + 1) mod 2 ^ 64) n = n"
      unfolding dd using assms(2) by (simp only: mod_less [OF p] min_absorb2)
    have h: "nchunks div 2 = 1" "(nchunks = 2) = True" using nc by simp_all
    have ml: "merge_loop 0 (nchunks div 2) (2 ^ d) (2 ^ (d + 1)) n (nchunks = 2) d depth (pool, deps) =
        (pool @ [Merge 0 (2 ^ d) n True d depth], emplace deps (0, n) (length pool))"
      by (simp only: h merge_loop_final stepv l)
    have ll: "level_loop (d + 1) depth x n st = st" for x st
      using dd by (subst level_loop.simps) simp
    have "level_loop d depth nchunks n (pool, deps) =
        (pool @ [Merge 0 (2 ^ d) n True d depth], emplace deps (0, n) (length pool))"
      by (simp only: unfold ml ll)
    then show ?thesis using dm by (intro exI [of _ "[]"] exI [of _ deps]) simp
  next
    case False
    then have lvl: "d + 1 < depth" and two: "2 \<le> ceillog2 nchunks"
      using Suc(2) Suc.prems(2) by simp_all
    have nc3: "3 \<le> nchunks" and cl: "ceillog2 (nchunks - nchunks div 2) = depth - (d + 1)"
      using ceillog2_halve [OF two] Suc.prems(2) by simp_all
    have "(2::nat) ^ (d + 1) \<le> 2 ^ (depth - 1)"
      by (rule power_increasing) (use lvl in simp_all)
    moreover have "(2::nat) ^ (depth - 1) < n"
    proof -
      have "depth = Suc (depth - 1)" using lvl by simp
      then have "(2::nat) ^ depth = 2 * 2 ^ (depth - 1)" by (metis power_Suc)
      then show ?thesis using assms(3) by simp
    qed
    ultimately have dn: "(2::nat) ^ (d + 1) < n" by simp
    have "nchunks \<le> 2 ^ (depth - d)"
      using le_two_power_ceillog2 [of nchunks] Suc.prems(2) by simp
    moreover have "depth - d = Suc (depth - d - 1)" using lvl by simp
    ultimately have "nchunks \<le> 2 * 2 ^ (depth - d - 1)" by (metis power_Suc)
    then have "nchunks div 2 \<le> 2 ^ (depth - d - 1)" by simp
    then have "nchunks div 2 * 2 ^ (d + 1) \<le> 2 ^ (depth - d - 1) * 2 ^ (d + 1)"
      by (rule mult_le_mono1)
    also have "\<dots> = 2 ^ depth"
    proof -
      have "depth - d - 1 + (d + 1) = depth" using lvl by simp
      then show ?thesis by (simp only: power_add [symmetric])
    qed
    also have "\<dots> \<le> 2 ^ 63" by (rule power_increasing) (use assms(1) in simp_all)
    also have "\<dots> < (2::nat) ^ 64" by simp
    finally have nowrap: "nchunks div 2 * 2 ^ (d + 1) < 2 ^ 64" .
    have nf: "(nchunks = 2) = False" using nc3 by simp
    from merge_loop_early [OF _ dn nowrap, of 0 "2 ^ d" d depth pool deps]
    obtain T1 deps1 where
      m: "merge_loop 0 (nchunks div 2) (2 ^ d) (2 ^ (d + 1)) n False d depth (pool, deps) = (pool @ T1, deps1)"
      and T1: "\<forall>t \<in> set T1. task_is_merge t \<and> \<not> task_is_final t \<and> task_level t = d"
      and mo1: "map_of deps1 (0, n) = map_of deps (0, n)"
      by auto
    have k: "k = depth - (d + 1)" using Suc(2) by simp
    from Suc(1) [OF k lvl cl, of "pool @ T1" deps1]
    obtain T2 deps2 where
      r: "level_loop (d + 1) depth (nchunks - nchunks div 2) n (pool @ T1, deps1) =
          ((pool @ T1) @ T2 @ [Merge 0 (2 ^ (depth - 1)) n True (depth - 1) depth],
           emplace deps2 (0, n) (length (pool @ T1) + length T2))"
      and T2: "\<forall>t \<in> set T2. task_is_merge t \<and> \<not> task_is_final t \<and> task_level t < depth - 1"
      and mo2: "map_of deps2 (0, n) = map_of deps1 (0, n)"
      by blast
    have "\<forall>t \<in> set (T1 @ T2). task_is_merge t \<and> \<not> task_is_final t \<and> task_level t < depth - 1"
      using T1 T2 lvl by auto
    moreover have "map_of deps2 (0, n) = map_of deps (0, n)" using mo1 mo2 by simp
    ultimately show ?thesis
      using unfold nf m r by (intro exI [of _ "T1 @ T2"] exI [of _ deps2]) (simp add: add.assoc)
  qed
qed

text \<open>
  C4. For \<open>2 \<le> nchunks \<le> 2 ^ 63\<close> and a depth that the source has computed as
  \<open>\<lceil>log\<^sub>2 nchunks\<rceil>\<close>, \<^verbatim>\<open>psort__merge_tree\<close> finds a future under
  \<open>[0, npartitions)\<close> and returns. Every task it submits is a merge, and
  \<^verbatim>\<open>is_final_merge\<close> holds exactly on level \<open>depth - 1\<close>: the tasks of the earlier
  levels come first and do not carry it, and the last task is the single merge
  of level \<open>depth - 1\<close>, of \<open>[0, 2 ^ (depth - 1))\<close> with
  \<open>[2 ^ (depth - 1), npartitions)\<close>, which carries it. Its future is what
  \<^verbatim>\<open>emplace\<close> binds to \<open>[0, npartitions)\<close> and what the final lookup returns;
  only a binding of that key in the map passed in would be kept in its place.
\<close>

theorem psort__merge_tree_final_level:
  assumes "2 \<le> nchunks" and "nchunks \<le> 2 ^ 63"
    and "ceil_log2_double nchunks = depth_spec nchunks"
  shows "\<exists>fut T chunk_dependencies'.
           psort__merge_tree ceil_log2_double chunk_dependencies nchunks thread_pool =
             Inr (fut,
                  thread_pool @ T @
                    [Merge 0 (2 ^ (depth_spec nchunks - 1)) nchunks True
                       (depth_spec nchunks - 1) (depth_spec nchunks)],
                  chunk_dependencies') \<and>
           (\<forall>t \<in> set T. task_is_merge t \<and> \<not> task_is_final t \<and>
                          task_level t < depth_spec nchunks - 1) \<and>
           (\<forall>t \<in> set (T @ [Merge 0 (2 ^ (depth_spec nchunks - 1)) nchunks True
                               (depth_spec nchunks - 1) (depth_spec nchunks)]).
              task_is_final t \<longleftrightarrow> task_level t = depth_spec nchunks - 1) \<and>
           map_of chunk_dependencies' (0, nchunks) = Some fut \<and>
           fut = (case map_of chunk_dependencies (0, nchunks) of
                    None \<Rightarrow> length thread_pool + length T
                  | Some v \<Rightarrow> v) \<and>
           (map_of chunk_dependencies (0, nchunks) = None \<longrightarrow>
              (thread_pool @ T @
                 [Merge 0 (2 ^ (depth_spec nchunks - 1)) nchunks True
                    (depth_spec nchunks - 1) (depth_spec nchunks)]) ! fut =
              Merge 0 (2 ^ (depth_spec nchunks - 1)) nchunks True
                (depth_spec nchunks - 1) (depth_spec nchunks))"
proof -
  let ?depth = "depth_spec nchunks"
  have pos: "0 < nchunks" using assms(1) by simp
  have dc: "?depth = ceillog2 nchunks" using pos by (rule depth_spec_ceillog2)
  have le: "nchunks \<le> 2 ^ ?depth" unfolding dc by (rule le_two_power_ceillog2)
  have gt: "2 ^ ?depth < 2 * nchunks" unfolding dc using pos by (rule two_power_ceillog2_gt)
  have d63: "?depth \<le> 63" unfolding dc using assms(2) pos by (simp add: ceillog2_le_iff)
  have "2 ^ 1 < 2 * nchunks" using assms(1) by simp
  then have "1 \<le> ceillog2 nchunks" using pos by (simp only: ceillog2_ge_iff)
  then have d0: "0 < ?depth" unfolding dc by simp
  have cl: "ceillog2 nchunks = ?depth - 0" using dc by simp
  let ?final = "Merge 0 (2 ^ (?depth - 1)) nchunks True (?depth - 1) ?depth"
  from level_loop_tree [OF d63 le gt d0 cl, of thread_pool chunk_dependencies]
  obtain T deps1 where
    r: "level_loop 0 ?depth nchunks nchunks (thread_pool, chunk_dependencies) =
          (thread_pool @ T @ [?final], emplace deps1 (0, nchunks) (length thread_pool + length T))"
    and T: "\<forall>t \<in> set T. task_is_merge t \<and> \<not> task_is_final t \<and> task_level t < ?depth - 1"
    and mo: "map_of deps1 (0, nchunks) = map_of chunk_dependencies (0, nchunks)"
    by blast
  let ?deps = "emplace deps1 (0, nchunks) (length thread_pool + length T)"
  let ?fut = "case map_of chunk_dependencies (0, nchunks) of
                None \<Rightarrow> length thread_pool + length T | Some v \<Rightarrow> v"
  have fut: "map_of ?deps (0, nchunks) = Some ?fut"
    by (cases "map_of chunk_dependencies (0, nchunks)") (simp_all add: map_of_emplace_same mo)
  have res: "psort__merge_tree ceil_log2_double chunk_dependencies nchunks thread_pool =
      Inr (?fut, thread_pool @ T @ [?final], ?deps)"
    using pos r fut assms(3) by (simp add: psort__merge_tree_def Let_def)
  have a: "\<forall>t \<in> set (T @ [?final]). task_is_final t \<longleftrightarrow> task_level t = ?depth - 1"
    using T by auto
  have c: "map_of chunk_dependencies (0, nchunks) = None \<longrightarrow>
      (thread_pool @ T @ [?final]) ! ?fut = ?final"
    by (auto simp: nth_append)
  show ?thesis
    apply (rule exI [of _ ?fut])
    apply (rule exI [of _ T])
    apply (rule exI [of _ ?deps])
    apply (intro conjI)
         apply (rule res)
        apply (rule T)
       apply (rule a)
      apply (rule fut)
     apply (rule refl)
    apply (rule c)
    done
qed

theorem psort__merge_tree_final_level_witness:
  "(2 :: nat) \<le> 3 \<and> depth_spec 3 = 2 \<and> ceillog2 3 = depth_spec 3
   \<and> psort__merge_tree ceillog2 [((0, 1), 0), ((1, 2), 1), ((2, 3), 2)] 3
        [WaitHandle (Handle 5), LocalCopy, WaitHandle (Handle 6)] =
       Inr (4, [WaitHandle (Handle 5), LocalCopy, WaitHandle (Handle 6),
                Merge 0 1 2 False 0 2, Merge 0 2 3 True 1 2],
            [((0, 1), 0), ((1, 2), 1), ((2, 3), 2), ((0, 2), 3), ((0, 3), 4)])
   \<and> [WaitHandle (Handle 5), LocalCopy, WaitHandle (Handle 6),
       Merge 0 1 2 False 0 2, Merge 0 2 3 True 1 2] ! 4 = Merge 0 2 3 True 1 2"
proof -
  have c: "ceillog2 3 = 2"
    by (simp add: ceillog2_code ceillog2_aux.simps)
  have d: "depth_spec 3 = 2"
    using c by (simp add: depth_spec_ceillog2)
  show ?thesis
    using psort__merge_tree_final_level [of 3 ceillog2 "[((0, 1), 0), ((1, 2), 1), ((2, 3), 2)]"
        "[WaitHandle (Handle 5), LocalCopy, WaitHandle (Handle 6)]"] c d
    by (simp add: psort__merge_tree_def level_loop.simps merge_loop.simps submit_def emplace_def
        Let_def)
qed

section \<open>Team creation\<close>

lemma smax_sint: "sint (smax a b) = max (sint a) (sint b)"
  by (simp add: smax_def word_sless_alt max_def)

lemma allreduce_max_int_sint:
  "sint (allreduce_max_int own peers) = Max (sint ` set (own # peers))"
proof -
  have "sint (fold smax peers own) = Max (insert (sint own) (sint ` set peers))"
  proof (induction peers arbitrary: own)
    case Nil
    then show ?case by simp
  next
    case (Cons p peers)
    have "sint (fold smax (p # peers) own) = Max (insert (sint (smax p own)) (sint ` set peers))"
      using Cons [of "smax p own"] by simp
    also have "\<dots> = Max (insert (sint own) (sint ` set (p # peers)))"
      by (cases "peers = []") (simp_all add: smax_sint max.commute max.left_commute insert_commute)
    finally show ?case .
  qed
  then show ?thesis by (simp add: allreduce_max_int_def)
qed

lemma sint_succ:
  fixes w :: "32 word"
  assumes "sint w < 2 ^ 31 - 1"
  shows "sint (w + 1) = sint w + 1"
proof -
  have "- (2 ^ 31) \<le> sint w" using sint_ge [of w] by simp
  then have "signed_take_bit 31 (sint w + 1) = sint w + 1"
    using assms by (intro signed_take_bit_int_eq_self) simp_all
  then show ?thesis by (simp add: sint_word_ariths)
qed

lemma team_create_counter:
  assumes "dart_size_ret env = DART_OK"
    and "teamlist_convert env (teamlist st) teamid = Some index"
    and "allreduce_teamid_ret env = DART_OK"
    and "dart_team_create fuel env st teamid grp newteam = Some (Return r nt st')"
  shows "dart_next_availteamid st' =
           allreduce_max_int (dart_next_availteamid st)
             (peers_next_availteamid env (team_gaspi_id (dart_teams st index))) + 1"
  using assms
  by (auto simp: dart_team_create_def Let_def split: if_splits option.splits prod.splits)

lemma team_create_member_ok:
  assumes "group_ismember env grp (team_myid env)"
    and "dart_team_create fuel env st teamid grp newteam = Some (Return DART_OK nt st')"
  shows "\<exists>index. teamlist_convert env (teamlist st) teamid = Some index \<and>
           nt = allreduce_max_int (dart_next_availteamid st)
                  (peers_next_availteamid env (team_gaspi_id (dart_teams st index))) \<and>
           dart_next_availteamid st' = nt + 1"
  using assms
  by (auto simp: dart_team_create_def Let_def split: if_splits option.splits prod.splits)

lemma example_member_run:
  "dart_team_create 3 example_env example_state 0 [1, 2] 7 =
     Some (Return DART_OK 3
       \<lparr>dart_next_availteamid = 4, gaspi_group_id_top = 1,
        dart_teams = (\<lambda>i. \<lparr>team_gaspi_id = 0, team_group = [0, 1, 2]\<rparr>)
          (1 := \<lparr>team_gaspi_id = 1, team_group = [1, 2]\<rparr>),
        teamlist = [Some 0, Some 3, None]\<rparr>)"
  by (simp add: dart_team_create_def example_env_def example_state_def Let_def
      allreduce_max_int_def allreduce_max_byte_def smax_def word_sless_alt eval_nat_numeral)

lemma example_nonmember_run:
  "dart_team_create 3 example_env example_state 0 [0, 2] 7 =
     Some (Return DART_OK 7 (example_state\<lparr>dart_next_availteamid := 4\<rparr>))"
  by (simp add: dart_team_create_def example_env_def example_state_def Let_def
      allreduce_max_int_def allreduce_max_byte_def smax_def word_sless_alt eval_nat_numeral)

text \<open>
  C6. When the parent team resolves and the reduction of the counters succeeds,
  every call that returns, whether the caller is a member of the new group or
  not and whatever happens after the reduction, leaves \<^verbatim>\<open>dart_next_availteamid\<close>
  at the maximum of the pre-call counters of all parent members plus one, which
  is above the caller's pre-call value (no counter being at the largest
  \<^verbatim>\<open>int\<close>, where the addition is undefined); and a caller that is not a member
  does return, with \<^verbatim>\<open>*newteam\<close> untouched.
\<close>

theorem dart_team_create_next_availteamid:
  assumes "dart_size_ret env = DART_OK"
    and "teamlist_convert env (teamlist st) teamid = Some index"
    and "allreduce_teamid_ret env = DART_OK"
    and "\<forall>c \<in> set (dart_next_availteamid st #
            peers_next_availteamid env (team_gaspi_id (dart_teams st index))). sint c < 2 ^ 31 - 1"
  shows "(\<forall>r nt st'. dart_team_create fuel env st teamid grp newteam = Some (Return r nt st') \<longrightarrow>
            sint (dart_next_availteamid st') =
              Max (sint ` set (dart_next_availteamid st #
                     peers_next_availteamid env (team_gaspi_id (dart_teams st index)))) + 1 \<and>
            sint (dart_next_availteamid st) < sint (dart_next_availteamid st'))
       \<and> (\<not> group_ismember env grp (team_myid env) \<longrightarrow>
            (\<exists>r. dart_team_create fuel env st teamid grp newteam =
               Some (Return r newteam
                 (st\<lparr>dart_next_availteamid :=
                       allreduce_max_int (dart_next_availteamid st)
                         (peers_next_availteamid env (team_gaspi_id (dart_teams st index))) + 1\<rparr>))))"
proof (intro conjI allI impI)
  let ?peers = "peers_next_availteamid env (team_gaspi_id (dart_teams st index))"
  let ?max = "allreduce_max_int (dart_next_availteamid st) ?peers"
  have m: "sint ?max = Max (sint ` set (dart_next_availteamid st # ?peers))"
    by (rule allreduce_max_int_sint)
  have "Max (sint ` set (dart_next_availteamid st # ?peers)) \<in>
      sint ` set (dart_next_availteamid st # ?peers)"
    by (rule Max_in) simp_all
  then have "sint ?max < 2 ^ 31 - 1" using assms(4) m by auto
  then have succ: "sint (?max + 1) = sint ?max + 1" by (rule sint_succ)
  have own: "sint (dart_next_availteamid st) \<le> sint ?max"
    unfolding m by (rule Max_ge) simp_all
  fix r nt st'
  assume run: "dart_team_create fuel env st teamid grp newteam = Some (Return r nt st')"
  have c: "dart_next_availteamid st' = ?max + 1"
    using assms(1-3) run by (rule team_create_counter)
  show "sint (dart_next_availteamid st') =
      Max (sint ` set (dart_next_availteamid st # ?peers)) + 1"
    using c succ m by simp
  show "sint (dart_next_availteamid st) < sint (dart_next_availteamid st')"
    using c succ own by simp
next
  assume "\<not> group_ismember env grp (team_myid env)"
  then show "\<exists>r. dart_team_create fuel env st teamid grp newteam =
      Some (Return r newteam
        (st\<lparr>dart_next_availteamid :=
              allreduce_max_int (dart_next_availteamid st)
                (peers_next_availteamid env (team_gaspi_id (dart_teams st index))) + 1\<rparr>))"
    using assms(1-3) by (simp add: dart_team_create_def Let_def)
qed

theorem dart_team_create_next_availteamid_witness:
  "returned_next_availteamid (dart_team_create 3 example_env example_state 0 [0, 2] 7) = Some 4
   \<and> returned_newteam (dart_team_create 3 example_env example_state 0 [0, 2] 7) = Some 7
   \<and> returned_next_availteamid (dart_team_create 3 example_env example_state 0 [1, 2] 7) = Some 4
   \<and> Max (sint ` set [1, 3, 2 :: 32 word]) + 1 = 4
   \<and> sint (dart_next_availteamid example_state) < sint (4 :: 32 word)"
  using dart_team_create_next_availteamid [of example_env example_state 0 0 3 "[0, 2]" 7]
    example_member_run example_nonmember_run
  by (simp add: example_env_def example_state_def)

text \<open>
  C1 (amended). For a caller that is a member of the new group and a call that
  returns \<^verbatim>\<open>DART_OK\<close>, the id written to \<^verbatim>\<open>*newteam\<close> is the maximum of the
  pre-call counters \<^verbatim>\<open>dart_next_availteamid\<close> of all parent members itself; the
  incremented maximum is the new value of \<^verbatim>\<open>dart_next_availteamid\<close>.
\<close>

theorem dart_team_create_newteam_is_max:
  assumes "group_ismember env grp (team_myid env)"
    and "dart_team_create fuel env st teamid grp newteam = Some (Return DART_OK nt st')"
  shows "\<exists>index. teamlist_convert env (teamlist st) teamid = Some index \<and>
           sint nt = Max (sint ` set (dart_next_availteamid st #
                            peers_next_availteamid env (team_gaspi_id (dart_teams st index)))) \<and>
           dart_next_availteamid st' = nt + 1"
proof -
  from team_create_member_ok [OF assms]
  obtain index where i: "teamlist_convert env (teamlist st) teamid = Some index"
    and n: "nt = allreduce_max_int (dart_next_availteamid st)
                  (peers_next_availteamid env (team_gaspi_id (dart_teams st index)))"
    and c: "dart_next_availteamid st' = nt + 1"
    by blast
  show ?thesis using i c allreduce_max_int_sint unfolding n by blast
qed

theorem dart_team_create_newteam_is_max_witness:
  "group_ismember example_env [1, 2] (team_myid example_env)
   \<and> returned_status (dart_team_create 3 example_env example_state 0 [1, 2] 7) = Some DART_OK
   \<and> returned_newteam (dart_team_create 3 example_env example_state 0 [1, 2] 7) = Some 3
   \<and> Max (sint ` set [1, 3, 2 :: 32 word]) = 3"
  using dart_team_create_newteam_is_max [of example_env "[1, 2]" 3 example_state 0 7 3, OF _ example_member_run]
  by (simp add: example_member_run) (simp add: example_env_def)

text \<open>
  The claim as stated, with the increment, fails in the scenario: the caller is
  a member of the new group \<open>{1, 2}\<close>, the counters are 1, 3 and 2, and the id
  written to \<^verbatim>\<open>*newteam\<close> is 3, not 4.
\<close>

theorem dart_team_create_newteam_counterexample:
  "group_ismember example_env [1, 2] (team_myid example_env)
   \<and> returned_status (dart_team_create 3 example_env example_state 0 [1, 2] 7) = Some DART_OK
   \<and> returned_newteam (dart_team_create 3 example_env example_state 0 [1, 2] 7) = Some 3
   \<and> allreduce_max_int (dart_next_availteamid example_state)
        (peers_next_availteamid example_env
           (team_gaspi_id (dart_teams example_state 0))) + 1 = 4
   \<and> returned_newteam (dart_team_create 3 example_env example_state 0 [1, 2] 7) \<noteq>
       Some (allreduce_max_int (dart_next_availteamid example_state)
               (peers_next_availteamid example_env
                  (team_gaspi_id (dart_teams example_state 0))) + 1)"
  by (simp add: example_member_run)
    (simp add: example_env_def example_state_def allreduce_max_int_def smax_def word_sless_alt)

end
